theory Spec2Isabelle
  imports Main
begin

chapter \<open>The model\<close>

section \<open>JSON values and JSON text\<close>

text \<open>
  Message content, message annotations and row metadata are JavaScript values. The model
  keeps the values that JSON can carry: \<open>null\<close>, booleans, numbers (integers here),
  strings, arrays and objects (an object is the list of its properties in insertion
  order). \<open>undefined\<close> is the absence of a value: an optional field is an
  \<open>option\<close>, a missing property is \<open>None\<close>.
\<close>

datatype json =
    JNull
  | JBool bool
  | JNumber int
  | JString string
  | JArray "json list"
  | JObject "(string \<times> json) list"

text \<open>
  \<open>JSON.stringify\<close> and \<open>JSON.parse\<close> belong to the runtime, not to the
  repository. They are modelled by a printer of the compact JSON text (no white space,
  the double quote and the backslash escaped inside strings) and a recursive-descent parser of
  that text; the parser carries fuel, bounded by the length of its input. For a value
  of type \<open>json\<close> the printer never throws, so the \<open>catch\<close> branch of
  \<open>normalizeContent\<close> (circular structures, BigInt) has no input in this model.
\<close>

definition digit_char :: "nat \<Rightarrow> char" where
  "digit_char d = char_of (48 + d)"

definition is_digit :: "char \<Rightarrow> bool" where
  "is_digit c = (48 \<le> (of_char c :: nat) \<and> (of_char c :: nat) \<le> 57)"

definition digit_val :: "char \<Rightarrow> nat" where
  "digit_val c = of_char c - 48"

function digits :: "nat \<Rightarrow> string" where
  "digits n = (if n < 10 then [digit_char n] else digits (n div 10) @ [digit_char (n mod 10)])"
  by pat_completeness auto

termination
  by (relation "measure id") auto

declare digits.simps [simp del]

definition number_of_digits :: "string \<Rightarrow> nat" where
  "number_of_digits ds = foldl (\<lambda>a c. a * 10 + digit_val c) 0 ds"

definition show_int :: "int \<Rightarrow> string" where
  "show_int i = (if i < 0 then CHR ''-'' # digits (nat (- i)) else digits (nat i))"

fun escape :: "string \<Rightarrow> string" where
  "escape [] = []"
| "escape (c # cs) =
     (if c = CHR 0x22 \<or> c = CHR 0x5C then CHR 0x5C # c # escape cs else c # escape cs)"

definition quote :: "string \<Rightarrow> string" where
  "quote s = CHR 0x22 # escape s @ [CHR 0x22]"

fun JSON_stringify :: "json \<Rightarrow> string"
  and stringify_elements :: "json list \<Rightarrow> string"
  and stringify_members :: "(string \<times> json) list \<Rightarrow> string" where
  "JSON_stringify JNull = ''null''"
| "JSON_stringify (JBool b) = (if b then ''true'' else ''false'')"
| "JSON_stringify (JNumber i) = show_int i"
| "JSON_stringify (JString s) = quote s"
| "JSON_stringify (JArray xs) = ''['' @ stringify_elements xs @ '']''"
| "JSON_stringify (JObject kvs) = ''{'' @ stringify_members kvs @ ''}''"
| "stringify_elements [] = []"
| "stringify_elements [x] = JSON_stringify x"
| "stringify_elements (x # y # ys) = JSON_stringify x @ '','' @ stringify_elements (y # ys)"
| "stringify_members [] = []"
| "stringify_members [(k, v)] = quote k @ '':'' @ JSON_stringify v"
| "stringify_members ((k, v) # kv # kvs) =
     quote k @ '':'' @ JSON_stringify v @ '','' @ stringify_members (kv # kvs)"

fun parse_string :: "string \<Rightarrow> (string \<times> string) option" where
  "parse_string [] = None"
| "parse_string [c] = (if c = CHR 0x22 then Some ([], []) else None)"
| "parse_string (c # d # r) =
     (if c = CHR 0x22 then Some ([], d # r)
      else if c = CHR 0x5C then
        (case parse_string r of None \<Rightarrow> None | Some (s, r') \<Rightarrow> Some (d # s, r'))
      else (case parse_string (d # r) of None \<Rightarrow> None | Some (s, r') \<Rightarrow> Some (c # s, r')))"

definition parse_number :: "string \<Rightarrow> (int \<times> string) option" where
  "parse_number s =
     (case s of
        [] \<Rightarrow> None
      | c # r \<Rightarrow>
          if c = CHR ''-'' then
            (if takeWhile is_digit r = [] then None
             else Some (- int (number_of_digits (takeWhile is_digit r)), dropWhile is_digit r))
          else if takeWhile is_digit s = [] then None
          else Some (int (number_of_digits (takeWhile is_digit s)), dropWhile is_digit s))"

fun parse_value :: "nat \<Rightarrow> string \<Rightarrow> (json \<times> string) option"
  and parse_elements :: "nat \<Rightarrow> string \<Rightarrow> (json list \<times> string) option"
  and parse_members :: "nat \<Rightarrow> string \<Rightarrow> ((string \<times> json) list \<times> string) option" where
  "parse_value 0 s = None"
| "parse_value (Suc n) s =
     (if take 4 s = ''null'' then Some (JNull, drop 4 s)
      else if take 4 s = ''true'' then Some (JBool True, drop 4 s)
      else if take 5 s = ''false'' then Some (JBool False, drop 5 s)
      else if take 2 s = ''[]'' then Some (JArray [], drop 2 s)
      else if take 2 s = ''{}'' then Some (JObject [], drop 2 s)
      else if take 1 s = [CHR 0x22] then
        (case parse_string (drop 1 s) of
           None \<Rightarrow> None
         | Some (str, r) \<Rightarrow> Some (JString str, r))
      else if take 1 s = ''['' then
        (case parse_elements n (drop 1 s) of
           None \<Rightarrow> None
         | Some (xs, r) \<Rightarrow> Some (JArray xs, r))
      else if take 1 s = ''{'' then
        (case parse_members n (drop 1 s) of
           None \<Rightarrow> None
         | Some (kvs, r) \<Rightarrow> Some (JObject kvs, r))
      else
        (case parse_number s of
           None \<Rightarrow> None
         | Some (i, r) \<Rightarrow> Some (JNumber i, r)))"
| "parse_elements 0 s = None"
| "parse_elements (Suc n) s =
     (case parse_value n s of
        None \<Rightarrow> None
      | Some (v, r) \<Rightarrow>
          if take 1 r = '']'' then Some ([v], drop 1 r)
          else if take 1 r = '','' then
            (case parse_elements n (drop 1 r) of
               None \<Rightarrow> None
             | Some (vs, r') \<Rightarrow> Some (v # vs, r'))
          else None)"
| "parse_members 0 s = None"
| "parse_members (Suc n) s =
     (if take 1 s = [CHR 0x22] then
        (case parse_string (drop 1 s) of
           None \<Rightarrow> None
         | Some (k, r0) \<Rightarrow>
             if take 1 r0 = '':'' then
               (case parse_value n (drop 1 r0) of
                  None \<Rightarrow> None
                | Some (v, r) \<Rightarrow>
                    if take 1 r = ''}'' then Some ([(k, v)], drop 1 r)
                    else if take 1 r = '','' then
                      (case parse_members n (drop 1 r) of
                         None \<Rightarrow> None
                       | Some (kvs, r') \<Rightarrow> Some ((k, v) # kvs, r'))
                    else None)
             else None)
      else None)"

definition JSON_parse :: "string \<Rightarrow> json option" where
  "JSON_parse s =
     (case parse_value (2 * length s + 1) s of
        Some (v, []) \<Rightarrow> Some v
      | _ \<Rightarrow> None)"

section \<open>JavaScript operators on values\<close>

text \<open>
  The tests the code applies to values: truthiness (\<open>if (x)\<close>, \<open>x && y\<close>),
  \<open>typeof x === 'object'\<close>, property access on a value that may not be an object
  (\<open>undefined\<close>, here \<open>None\<close>, for a missing property and for every
  property of a non-object), \<open>Object.keys\<close> and the spread \<open>{ ...x }\<close>.
  None of the property names the code reads is an array index or \<open>length\<close>.
\<close>

fun js_truthy :: "json \<Rightarrow> bool" where
  "js_truthy JNull = False"
| "js_truthy (JBool b) = b"
| "js_truthy (JNumber i) = (i \<noteq> 0)"
| "js_truthy (JString s) = (s \<noteq> [])"
| "js_truthy (JArray xs) = True"
| "js_truthy (JObject kvs) = True"

fun js_typeof_object :: "json \<Rightarrow> bool" where
  "js_typeof_object JNull = True"
| "js_typeof_object (JArray xs) = True"
| "js_typeof_object (JObject kvs) = True"
| "js_typeof_object v = False"

fun js_get :: "json \<Rightarrow> string \<Rightarrow> json option" where
  "js_get (JObject kvs) k = map_of kvs k"
| "js_get v k = None"

definition index_keys :: "nat \<Rightarrow> string list" where
  "index_keys n = map digits [0..<n]"

fun Object_keys :: "json \<Rightarrow> string list" where
  "Object_keys (JObject kvs) = map fst kvs"
| "Object_keys (JArray xs) = index_keys (length xs)"
| "Object_keys (JString s) = index_keys (length s)"
| "Object_keys v = []"

fun js_spread :: "json \<Rightarrow> json" where
  "js_spread (JObject kvs) = JObject kvs"
| "js_spread (JArray xs) = JObject (zip (index_keys (length xs)) xs)"
| "js_spread (JString s) = JObject (zip (index_keys (length s)) (map (\<lambda>c. JString [c]) s))"
| "js_spread v = JObject []"

section \<open>Errors and the log\<close>

text \<open>
  A thrown value is an \<open>Error\<close> with its message. An operation that can throw
  returns \<open>error + 'a\<close>, \<open>Inl\<close> for the throw; a \<open>try/catch\<close> is the case
  distinction on that result. \<open>Logging.log(source, message, level)\<close> appends an
  entry to the log of the object that called it.
\<close>

datatype error = Error string

fun error_message :: "error \<Rightarrow> string" where
  "error_message (Error m) = m"

type_synonym log_entry = "string \<times> string \<times> string"

section \<open>Stored rows\<close>

text \<open>
  \<open>ChatMemoryMessage\<close> of SQLiteChatMemory.ts. \<open>role\<close> is a \<open>MessageType\<close>,
  a string at run time. Optional fields are options.
\<close>

record ChatMemoryMessage =
  role :: string
  content :: string
  sequence :: int
  createdAt :: "int option"
  metadata :: "json option"

text \<open>
  Modelled from the spec: the enum \<open>MessageType\<close>, declared in the pipeline module
  (\<open>MessageManager\<close>), which is not among these sources. Its values are the kind
  tags the specification lists: \<open>system, human, ai, tool, browser_state, todo_list\<close>.
\<close>

definition SYSTEM :: string where "SYSTEM = ''system''"

definition HUMAN :: string where "HUMAN = ''human''"

definition AI :: string where "AI = ''ai''"

definition TOOL :: string where "TOOL = ''tool''"

definition BROWSER_STATE :: string where "BROWSER_STATE = ''browser_state''"

definition TODO_LIST :: string where "TODO_LIST = ''todo_list''"

section \<open>The durable backend: SQLiteChatMemory\<close>

subsection \<open>The embedded store\<close>

text \<open>
  The two tables of \<open>createSchema\<close>, with the columns' declared types. A table is
  the list of its rows in insertion order; \<open>autoincrement\<close> is the largest row id
  handed out so far. The store lives in the file at \<open>dbPath\<close> and outlives the
  handle.
\<close>

record conversations_row =
  conv_id :: string
  conv_created_at :: int
  conv_updated_at :: int

record chat_messages_row =
  col_id :: nat
  col_conversation_id :: string
  col_role :: string
  col_content :: string
  col_metadata :: "string option"
  col_sequence :: int
  col_created_at :: int

record database =
  conversations :: "conversations_row list"
  chat_messages :: "chat_messages_row list"
  autoincrement :: nat

definition empty_database :: database where
  "empty_database = \<lparr>conversations = [], chat_messages = [], autoincrement = 0\<rparr>"

subsection \<open>The runtime\<close>

text \<open>
  What an operation meets in its environment while it runs: whether
  \<open>require('better-sqlite3')\<close> yields the driver, which step of opening the store
  throws (if any), which statement execution of the operation throws (if any: statement
  executions are counted from 0 within the operation), the clock \<open>Date.now()\<close>, the
  environment variables, the working directory, \<open>path.join\<close> when the
  \<open>path\<close> module can be loaded, and the store found in the file at each path
  (the empty store where there is no file yet).
\<close>

datatype init_step =
    OpenDatabase
  | PragmaJournalMode
  | PragmaForeignKeys
  | CreateSchema
  | PrepareStatements

record runtime =
  require_driver :: bool
  init_fault :: "init_step option"
  stmt_fault :: "nat option"
  clock :: int
  env_BROWSEROS_CHAT_MEMORY_ID :: "string option"
  env_BROWSEROS_CHAT_MEMORY_PATH :: "string option"
  cwd :: string
  path_join :: "(string \<Rightarrow> string \<Rightarrow> string) option"
  files :: "string \<Rightarrow> database"

definition healthy :: "runtime \<Rightarrow> bool" where
  "healthy rt = (require_driver rt \<and> init_fault rt = None \<and> stmt_fault rt = None)"

subsection \<open>Statements and transactions\<close>

text \<open>
  The five prepared statements of \<open>prepareStatements\<close>, as functions on the store.
  \<open>insertMessage\<close> throws when the conversation it refers to does not exist (the
  foreign key, enforced since \<open>foreign_keys = ON\<close>); \<open>deleteConversation\<close>
  takes the conversation's messages with it (\<open>ON DELETE CASCADE\<close>);
  \<open>selectMessages\<close> orders by \<open>sequence\<close> (a stable sort: rows of equal
  sequence stay in insertion order).
\<close>

definition upsertConversation :: "string \<Rightarrow> int \<Rightarrow> int \<Rightarrow> database \<Rightarrow> error + database" where
  "upsertConversation cid created updated db =
     (if cid \<in> conv_id ` set (conversations db)
      then Inr (db\<lparr>conversations :=
             map (\<lambda>c. if conv_id c = cid then c\<lparr>conv_updated_at := updated\<rparr> else c)
               (conversations db)\<rparr>)
      else Inr (db\<lparr>conversations := conversations db @
             [\<lparr>conv_id = cid, conv_created_at = created, conv_updated_at = updated\<rparr>]\<rparr>))"

definition deleteMessages :: "string \<Rightarrow> database \<Rightarrow> error + database" where
  "deleteMessages cid db =
     Inr (db\<lparr>chat_messages := filter (\<lambda>r. col_conversation_id r \<noteq> cid) (chat_messages db)\<rparr>)"

definition insertMessage ::
  "string \<Rightarrow> string \<Rightarrow> string \<Rightarrow> string option \<Rightarrow> int \<Rightarrow> int \<Rightarrow> database \<Rightarrow> error + database" where
  "insertMessage cid r c m sq created db =
     (if cid \<notin> conv_id ` set (conversations db)
      then Inl (Error ''FOREIGN KEY constraint failed'')
      else Inr (db\<lparr>chat_messages := chat_messages db @
                  [\<lparr>col_id = Suc (autoincrement db), col_conversation_id = cid, col_role = r,
                    col_content = c, col_metadata = m, col_sequence = sq,
                    col_created_at = created\<rparr>],
                autoincrement := Suc (autoincrement db)\<rparr>))"

definition deleteConversation :: "string \<Rightarrow> database \<Rightarrow> error + database" where
  "deleteConversation cid db =
     Inr (db\<lparr>conversations := filter (\<lambda>c. conv_id c \<noteq> cid) (conversations db),
             chat_messages := filter (\<lambda>r. col_conversation_id r \<noteq> cid) (chat_messages db)\<rparr>)"

definition selectMessages :: "string \<Rightarrow> database \<Rightarrow> chat_messages_row list" where
  "selectMessages cid db =
     sort_key col_sequence (filter (\<lambda>r. col_conversation_id r = cid) (chat_messages db))"

text \<open>
  Running a statement (\<open>run\<close>, and \<open>all\<close> for the query): execution
  number \<open>k\<close> of the operation throws when the runtime says so, and otherwise
  does what the statement does. \<open>db.transaction\<close>
  commits what its handler did when the handler returns, and rolls the store back and
  rethrows when the handler throws.
\<close>

definition run_statement ::
  "runtime \<Rightarrow> nat \<Rightarrow> (database \<Rightarrow> error + database) \<Rightarrow> database \<Rightarrow> error + database" where
  "run_statement rt k stmt db =
     (if stmt_fault rt = Some k then Inl (Error ''SQLITE_ERROR'') else stmt db)"

definition run_query :: "runtime \<Rightarrow> nat \<Rightarrow> (database \<Rightarrow> 'a) \<Rightarrow> database \<Rightarrow> error + 'a" where
  "run_query rt k query db =
     (if stmt_fault rt = Some k then Inl (Error ''SQLITE_ERROR'') else Inr (query db))"

definition transaction ::
  "(database \<Rightarrow> error + database) \<Rightarrow> database \<Rightarrow> (error + unit) \<times> database" where
  "transaction handler db =
     (case handler db of
        Inl e \<Rightarrow> (Inl e, db)
      | Inr db' \<Rightarrow> (Inr (), db'))"

subsection \<open>The adapter object\<close>

text \<open>
  The fields of the class. \<open>database\<close>, \<open>statements\<close> and \<open>driver\<close> say
  whether the field is non-null; \<open>disk\<close> is the store in the file at
  \<open>dbPath\<close>; \<open>sqlite_log\<close> is what the object has logged.
\<close>

record SQLiteChatMemory =
  dbPath :: string
  journalMode :: string
  database :: bool
  statements :: bool
  initialized :: bool
  driver :: bool
  disk :: database
  sqlite_log :: "log_entry list"

definition white_space :: "char \<Rightarrow> bool" where
  "white_space c = (c = CHR '' '' \<or> c = CHR 0x09 \<or> c = CHR 0x0A \<or> c = CHR 0x0B
                    \<or> c = CHR 0x0C \<or> c = CHR 0x0D)"

definition trim :: "string \<Rightarrow> string" where
  "trim s = rev (dropWhile white_space (rev (dropWhile white_space s)))"

definition given :: "string option \<Rightarrow> bool" where
  "given p = (case p of Some x \<Rightarrow> x \<noteq> [] \<and> trim x \<noteq> [] | None \<Rightarrow> False)"

definition resolveDatabasePath :: "runtime \<Rightarrow> string option \<Rightarrow> string" where
  "resolveDatabasePath rt provided =
     (if given provided then the provided
      else if given (env_BROWSEROS_CHAT_MEMORY_PATH rt) then the (env_BROWSEROS_CHAT_MEMORY_PATH rt)
      else (case path_join rt of
              Some join \<Rightarrow> join (cwd rt) ''chat_memory.sqlite''
            | None \<Rightarrow>
                (if cwd rt \<noteq> [] \<and> last (cwd rt) = CHR ''/''
                 then butlast (cwd rt) else cwd rt) @ ''/chat_memory.sqlite''))"

definition new_SQLiteChatMemory :: "runtime \<Rightarrow> string option \<Rightarrow> string option \<Rightarrow> SQLiteChatMemory" where
  "new_SQLiteChatMemory rt opt_path opt_journal =
     \<lparr>dbPath = resolveDatabasePath rt opt_path,
      journalMode = (case opt_journal of Some j \<Rightarrow> j | None \<Rightarrow> ''WAL''),
      database = False, statements = False, initialized = False, driver = False,
      disk = files rt (resolveDatabasePath rt opt_path),
      sqlite_log = []\<rparr>"

definition loadDriver :: "runtime \<Rightarrow> SQLiteChatMemory \<Rightarrow> bool \<times> SQLiteChatMemory" where
  "loadDriver rt s =
     (if driver s then (True, s)
      else if require_driver rt then (True, s\<lparr>driver := True\<rparr>)
      else (False, s))"

text \<open>
  The \<open>try\<close> block of \<open>ensureDatabase\<close>, statement by statement: the result
  is the throw or the normal end, with the object as the block left it.
  \<open>ensureDirectoryExists\<close> swallows its own errors and changes no field;
  \<open>createSchema\<close> creates what does not exist yet and leaves the rows alone.
\<close>

definition ensureDatabase_try :: "runtime \<Rightarrow> SQLiteChatMemory \<Rightarrow> (error + unit) \<times> SQLiteChatMemory" where
  "ensureDatabase_try rt s =
     (let (Driver, s1) = loadDriver rt s in
      if \<not> Driver then (Inl (Error ''better-sqlite3 module is not available''), s1)
      else if init_fault rt = Some OpenDatabase
        then (Inl (Error ''unable to open database file''), s1)
      else let s2 = s1\<lparr>database := True\<rparr> in
        if init_fault rt = Some PragmaJournalMode then (Inl (Error ''pragma journal_mode failed''), s2)
        else if init_fault rt = Some PragmaForeignKeys then (Inl (Error ''pragma foreign_keys failed''), s2)
        else if init_fault rt = Some CreateSchema then (Inl (Error ''exec schema failed''), s2)
        else if init_fault rt = Some PrepareStatements then (Inl (Error ''prepare failed''), s2)
        else (Inr (), s2\<lparr>statements := True, initialized := True\<rparr>))"

definition ensureDatabase :: "runtime \<Rightarrow> SQLiteChatMemory \<Rightarrow> bool \<times> SQLiteChatMemory" where
  "ensureDatabase rt s =
     (if database s then (True, s)
      else (case ensureDatabase_try rt s of
              (Inr u, s') \<Rightarrow> (database s', s')
            | (Inl e, s') \<Rightarrow>
                (False,
                 s'\<lparr>sqlite_log := sqlite_log s' @
                       [(''SQLiteChatMemory'',
                         ''Failed to initialize SQLite memory: '' @ error_message e, ''warning'')],
                    database := False,
                    statements := False\<rparr>)))"

definition SQLiteChatMemory_initialize :: "runtime \<Rightarrow> SQLiteChatMemory \<Rightarrow> (error + unit) \<times> SQLiteChatMemory" where
  "SQLiteChatMemory_initialize rt s = (Inr (), snd (ensureDatabase rt s))"

definition SQLiteChatMemory_isAvailable :: "runtime \<Rightarrow> SQLiteChatMemory \<Rightarrow> (error + bool) \<times> SQLiteChatMemory" where
  "SQLiteChatMemory_isAvailable rt s = (Inr (fst (ensureDatabase rt s)), snd (ensureDatabase rt s))"

text \<open>
  The handler of the transaction of \<open>replaceConversation\<close>: statement 0 upserts the
  conversation, statement 1 deletes its messages, statement \<open>2 + i\<close> inserts row
  \<open>i\<close>.
\<close>

definition metadataJson :: "ChatMemoryMessage \<Rightarrow> string option" where
  "metadataJson row =
     (case metadata row of
        Some m \<Rightarrow> if js_truthy m then Some (JSON_stringify m) else None
      | None \<Rightarrow> None)"

fun insert_rows ::
  "runtime \<Rightarrow> string \<Rightarrow> int \<Rightarrow> nat \<Rightarrow> ChatMemoryMessage list \<Rightarrow> database \<Rightarrow> error + database" where
  "insert_rows rt cid now k [] db = Inr db"
| "insert_rows rt cid now k (row # rows) db =
     (case run_statement rt k
             (insertMessage cid (role row) (content row) (metadataJson row) (sequence row)
                (case createdAt row of Some t \<Rightarrow> t | None \<Rightarrow> now)) db of
        Inl e \<Rightarrow> Inl e
      | Inr db' \<Rightarrow> insert_rows rt cid now (Suc k) rows db')"

definition replace_handler ::
  "runtime \<Rightarrow> string \<Rightarrow> int \<Rightarrow> ChatMemoryMessage list \<Rightarrow> database \<Rightarrow> error + database" where
  "replace_handler rt cid now rows db =
     (case run_statement rt 0 (upsertConversation cid now now) db of
        Inl e \<Rightarrow> Inl e
      | Inr db1 \<Rightarrow>
          (case run_statement rt 1 (deleteMessages cid) db1 of
             Inl e \<Rightarrow> Inl e
           | Inr db2 \<Rightarrow> insert_rows rt cid now 2 rows db2))"

definition SQLiteChatMemory_replaceConversation ::
  "runtime \<Rightarrow> string \<Rightarrow> ChatMemoryMessage list \<Rightarrow> SQLiteChatMemory \<Rightarrow> (error + unit) \<times> SQLiteChatMemory" where
  "SQLiteChatMemory_replaceConversation rt cid messages s =
     (let (db, s1) = ensureDatabase rt s in
      if \<not> db \<or> \<not> statements s1 then (Inr (), s1)
      else (case transaction (replace_handler rt cid (clock rt) messages) (disk s1) of
              (Inl e, d) \<Rightarrow>
                (Inr (),
                 s1\<lparr>disk := d,
                    sqlite_log := sqlite_log s1 @
                      [(''SQLiteChatMemory'',
                        ''Failed to persist chat history: '' @ error_message e, ''error'')]\<rparr>)
            | (Inr u, d) \<Rightarrow> (Inr (), s1\<lparr>disk := d\<rparr>)))"

text \<open>
  \<open>deserializeRow\<close>. The columns are typed, so the \<open>typeof\<close> tests on
  \<open>content\<close>, \<open>sequence\<close> and \<open>created_at\<close> succeed; the metadata
  column is a string or null, and a string that does not parse gives no metadata.
\<close>

definition deserializeRow :: "chat_messages_row \<Rightarrow> ChatMemoryMessage" where
  "deserializeRow row =
     \<lparr>role = col_role row,
      content = col_content row,
      sequence = col_sequence row,
      createdAt = Some (col_created_at row),
      metadata =
        (case col_metadata row of
           Some metadataRaw \<Rightarrow>
             if length metadataRaw > 0
             then (case JSON_parse metadataRaw of Some m \<Rightarrow> Some m | None \<Rightarrow> None)
             else None
         | None \<Rightarrow> None)\<rparr>"

definition SQLiteChatMemory_getMessages ::
  "runtime \<Rightarrow> string \<Rightarrow> SQLiteChatMemory \<Rightarrow> (error + ChatMemoryMessage list) \<times> SQLiteChatMemory" where
  "SQLiteChatMemory_getMessages rt cid s =
     (let (db, s1) = ensureDatabase rt s in
      if \<not> db \<or> \<not> statements s1 then (Inr [], s1)
      else (case run_query rt 0 (selectMessages cid) (disk s1) of
              Inl e \<Rightarrow>
                (Inr [],
                 s1\<lparr>sqlite_log := sqlite_log s1 @
                      [(''SQLiteChatMemory'',
                        ''Failed to load chat history: '' @ error_message e, ''error'')]\<rparr>)
            | Inr rows \<Rightarrow> (Inr (map deserializeRow rows), s1)))"

definition clear_handler :: "runtime \<Rightarrow> string \<Rightarrow> database \<Rightarrow> error + database" where
  "clear_handler rt cid db =
     (case run_statement rt 0 (deleteMessages cid) db of
        Inl e \<Rightarrow> Inl e
      | Inr db1 \<Rightarrow> run_statement rt 1 (deleteConversation cid) db1)"

definition SQLiteChatMemory_clearConversation ::
  "runtime \<Rightarrow> string \<Rightarrow> SQLiteChatMemory \<Rightarrow> (error + unit) \<times> SQLiteChatMemory" where
  "SQLiteChatMemory_clearConversation rt cid s =
     (let (db, s1) = ensureDatabase rt s in
      if \<not> db \<or> \<not> statements s1 then (Inr (), s1)
      else (case transaction (clear_handler rt cid) (disk s1) of
              (Inl e, d) \<Rightarrow>
                (Inr (),
                 s1\<lparr>disk := d,
                    sqlite_log := sqlite_log s1 @
                      [(''SQLiteChatMemory'',
                        ''Failed to clear chat history: '' @ error_message e, ''warning'')]\<rparr>)
            | (Inr u, d) \<Rightarrow> (Inr (), s1\<lparr>disk := d\<rparr>)))"

section \<open>The transient backend: InMemoryChatMemory\<close>

text \<open>
  The \<open>Map\<close> from conversation id to row list. Rows are immutable values in this
  part of the model, so the copies \<open>replaceConversation\<close> and \<open>getMessages\<close>
  make are visible only in what the spread does to a row's metadata; the section on
  object identity below models the same class with rows as mutable objects.
\<close>

record InMemoryChatMemory =
  store :: "string \<Rightarrow> ChatMemoryMessage list option"

definition new_InMemoryChatMemory :: InMemoryChatMemory where
  "new_InMemoryChatMemory = \<lparr>store = (\<lambda>cid. None)\<rparr>"

definition copy_row :: "ChatMemoryMessage \<Rightarrow> ChatMemoryMessage" where
  "copy_row message =
     message\<lparr>metadata :=
       (case metadata message of
          Some m \<Rightarrow> if js_truthy m then Some (js_spread m) else None
        | None \<Rightarrow> None)\<rparr>"

definition InMemoryChatMemory_initialize :: "InMemoryChatMemory \<Rightarrow> (error + unit) \<times> InMemoryChatMemory" where
  "InMemoryChatMemory_initialize s = (Inr (), s)"

definition InMemoryChatMemory_isAvailable :: "InMemoryChatMemory \<Rightarrow> (error + bool) \<times> InMemoryChatMemory" where
  "InMemoryChatMemory_isAvailable s = (Inr True, s)"

definition InMemoryChatMemory_replaceConversation ::
  "string \<Rightarrow> ChatMemoryMessage list \<Rightarrow> InMemoryChatMemory \<Rightarrow> (error + unit) \<times> InMemoryChatMemory" where
  "InMemoryChatMemory_replaceConversation cid messages s =
     (Inr (), s\<lparr>store := (store s)(cid \<mapsto> map copy_row messages)\<rparr>)"

definition InMemoryChatMemory_getMessages ::
  "string \<Rightarrow> InMemoryChatMemory \<Rightarrow> (error + ChatMemoryMessage list) \<times> InMemoryChatMemory" where
  "InMemoryChatMemory_getMessages cid s =
     (case store s cid of
        None \<Rightarrow> (Inr [], s)
      | Some messages \<Rightarrow> (Inr (map copy_row messages), s))"

definition InMemoryChatMemory_clearConversation ::
  "string \<Rightarrow> InMemoryChatMemory \<Rightarrow> (error + unit) \<times> InMemoryChatMemory" where
  "InMemoryChatMemory_clearConversation cid s = (Inr (), s\<lparr>store := (store s)(cid := None)\<rparr>)"

section \<open>The adapter interface\<close>

text \<open>
  \<open>ChatMemoryAdapter\<close>: the value a manager holds in \<open>this.memory\<close> is one of
  the two implementations, and a call through the interface goes to that
  implementation. Every method has the type of one that may throw, since the callers
  guard their calls.
\<close>

datatype ChatMemoryAdapter =
    SQLite SQLiteChatMemory
  | InMemory InMemoryChatMemory

fun memory_initialize :: "runtime \<Rightarrow> ChatMemoryAdapter \<Rightarrow> (error + unit) \<times> ChatMemoryAdapter" where
  "memory_initialize rt (SQLite s) = map_prod id SQLite (SQLiteChatMemory_initialize rt s)"
| "memory_initialize rt (InMemory s) = map_prod id InMemory (InMemoryChatMemory_initialize s)"

fun memory_isAvailable :: "runtime \<Rightarrow> ChatMemoryAdapter \<Rightarrow> (error + bool) \<times> ChatMemoryAdapter" where
  "memory_isAvailable rt (SQLite s) = map_prod id SQLite (SQLiteChatMemory_isAvailable rt s)"
| "memory_isAvailable rt (InMemory s) = map_prod id InMemory (InMemoryChatMemory_isAvailable s)"

fun memory_replaceConversation ::
  "runtime \<Rightarrow> string \<Rightarrow> ChatMemoryMessage list \<Rightarrow> ChatMemoryAdapter \<Rightarrow> (error + unit) \<times> ChatMemoryAdapter" where
  "memory_replaceConversation rt cid messages (SQLite s) =
     map_prod id SQLite (SQLiteChatMemory_replaceConversation rt cid messages s)"
| "memory_replaceConversation rt cid messages (InMemory s) =
     map_prod id InMemory (InMemoryChatMemory_replaceConversation cid messages s)"

fun memory_getMessages ::
  "runtime \<Rightarrow> string \<Rightarrow> ChatMemoryAdapter \<Rightarrow> (error + ChatMemoryMessage list) \<times> ChatMemoryAdapter" where
  "memory_getMessages rt cid (SQLite s) = map_prod id SQLite (SQLiteChatMemory_getMessages rt cid s)"
| "memory_getMessages rt cid (InMemory s) = map_prod id InMemory (InMemoryChatMemory_getMessages cid s)"

fun memory_clearConversation ::
  "runtime \<Rightarrow> string \<Rightarrow> ChatMemoryAdapter \<Rightarrow> (error + unit) \<times> ChatMemoryAdapter" where
  "memory_clearConversation rt cid (SQLite s) =
     map_prod id SQLite (SQLiteChatMemory_clearConversation rt cid s)"
| "memory_clearConversation rt cid (InMemory s) =
     map_prod id InMemory (InMemoryChatMemory_clearConversation cid s)"

section \<open>Messages\<close>

text \<open>
  The message classes, with the fields the manager reads and writes. \<open>SystemMessage\<close>,
  \<open>HumanMessage\<close>, \<open>AIMessage\<close> and \<open>ToolMessage\<close> are the message
  library's: content and \<open>additional_kwargs\<close> for all of them, \<open>tool_calls\<close>,
  \<open>invalid_tool_calls\<close> and \<open>usage_metadata\<close> for an AI message,
  \<open>tool_call_id\<close>, \<open>status\<close>, \<open>artifact\<close> and \<open>metadata\<close> for a
  tool message. A field the library defaults is never absent (\<open>additional_kwargs\<close>
  defaults to the empty object, the two call lists to the empty list); the others are
  optional. Fields the manager never reads (name, id, response metadata) are left out.
\<close>

text \<open>
  Modelled from the spec: the classes \<open>BrowserStateMessage\<close> and
  \<open>TodoListMessage\<close> of the pipeline module, which is not among these sources. The
  specification calls them specialized message kinds of their own, built from a string
  (non-string content is coerced to its JSON text before the constructor is called);
  here they carry that string and their annotations, and are instances of neither
  \<open>AIMessage\<close> nor \<open>ToolMessage\<close>.
\<close>

datatype Message =
    SystemMessage json json
  | HumanMessage json json
  | AIMessage json json "json list" "json list" "json option"
  | ToolMessage json json string "string option" "json option" "json option"
  | BrowserStateMessage string json
  | TodoListMessage string json

fun message_content :: "Message \<Rightarrow> json" where
  "message_content (SystemMessage c kw) = c"
| "message_content (HumanMessage c kw) = c"
| "message_content (AIMessage c kw tcs itcs usage) = c"
| "message_content (ToolMessage c kw tid st art md) = c"
| "message_content (BrowserStateMessage c kw) = JString c"
| "message_content (TodoListMessage c kw) = JString c"

fun additional_kwargs :: "Message \<Rightarrow> json" where
  "additional_kwargs (SystemMessage c kw) = kw"
| "additional_kwargs (HumanMessage c kw) = kw"
| "additional_kwargs (AIMessage c kw tcs itcs usage) = kw"
| "additional_kwargs (ToolMessage c kw tid st art md) = kw"
| "additional_kwargs (BrowserStateMessage c kw) = kw"
| "additional_kwargs (TodoListMessage c kw) = kw"

section \<open>The collaborators of the manager\<close>

text \<open>
  \<open>PersistentMessageManager\<close> extends \<open>MessageManager\<close>, whose source is not
  among these files, and builds its messages with the constructors of the message
  library, which is not part of the repository. Both are parameters of the model. The
  inherited state is a type variable, and the inherited methods the subclass calls
  (\<open>super(maxTokens)\<close>, \<open>super.add\<close>, \<open>super.removeLast\<close>,
  \<open>super.clear\<close>, \<open>super.setMaxTokens\<close>, \<open>getMessages\<close>,
  \<open>_getMessageType\<close>) are functions on it; they act on the inherited state only.

  \<open>new_message\<close> stands for the constructors. Its argument is the call as the
  manager writes it. \<open>new SystemMessage(content)\<close> and
  \<open>new HumanMessage(content)\<close> pass one positional argument, the restored
  content, whatever value that is. \<open>new ToolMessage(toolFields)\<close> and
  \<open>new AIMessage(fields)\<close> pass an object: the properties the manager has set,
  in the order it set them. \<open>new BrowserStateMessage(...)\<close> and
  \<open>new TodoListMessage(...)\<close> pass a string. A call returns a message or throws.
\<close>

datatype constructor_call =
    New_SystemMessage json
  | New_HumanMessage json
  | New_ToolMessage "(string \<times> json) list"
  | New_AIMessage "(string \<times> json) list"
  | New_BrowserStateMessage string
  | New_TodoListMessage string

record 'p collaborators =
  new_super :: "int option \<Rightarrow> 'p"
  super_add :: "Message \<Rightarrow> nat option \<Rightarrow> 'p \<Rightarrow> 'p"
  super_removeLast :: "'p \<Rightarrow> bool \<times> 'p"
  super_clear :: "'p \<Rightarrow> 'p"
  super_setMaxTokens :: "int \<Rightarrow> 'p \<Rightarrow> 'p"
  super_getMessages :: "'p \<Rightarrow> Message list"
  getMessageType :: "Message \<Rightarrow> string"
  new_message :: "constructor_call \<Rightarrow> error + Message"

section \<open>PersistentMessageManager\<close>

text \<open>
  The manager: the state it inherits (\<open>pipeline\<close>), its fields \<open>memory\<close>,
  \<open>conversationId\<close> and \<open>restoring\<close>, and what it has logged. The options of
  its constructor are all optional.
\<close>

record 'p PersistentMessageManager =
  pipeline :: 'p
  memory :: ChatMemoryAdapter
  conversationId :: string
  restoring :: bool
  manager_log :: "log_entry list"

record PersistentMessageManagerOptions =
  opt_maxTokens :: "int option"
  opt_conversationId :: "string option"
  opt_dbPath :: "string option"
  opt_memory :: "ChatMemoryAdapter option"

definition warn :: "string \<Rightarrow> error \<Rightarrow> log_entry" where
  "warn what e = (''PersistentMessageManager'', what @ error_message e, ''warning'')"

subsection \<open>Serialization\<close>

definition normalizeContent :: "Message \<Rightarrow> string \<times> bool" where
  "normalizeContent message =
     (case message_content message of
        JString rawContent \<Rightarrow> (rawContent, False)
      | rawContent \<Rightarrow> (JSON_stringify rawContent, True))"

definition has_keys :: "json \<Rightarrow> bool" where
  "has_keys v = (js_truthy v \<and> length (Object_keys v) > 0)"

fun tool_entries :: "Message \<Rightarrow> (string \<times> json) list" where
  "tool_entries (ToolMessage c kw tid st art md) =
     [(''toolCallId'', JString tid)]
     @ (case st of Some status \<Rightarrow> if status \<noteq> [] then [(''toolStatus'', JString status)] else []
        | None \<Rightarrow> [])
     @ (case art of Some artifact \<Rightarrow> [(''artifact'', artifact)] | None \<Rightarrow> [])
     @ (case md of Some m \<Rightarrow> if has_keys m then [(''toolMetadata'', m)] else []
        | None \<Rightarrow> [])"
| "tool_entries message = []"

fun ai_entries :: "Message \<Rightarrow> (string \<times> json) list" where
  "ai_entries (AIMessage c kw tcs itcs usage) =
     (if length tcs > 0 then [(''toolCalls'', JArray tcs)] else [])
     @ (if length itcs > 0 then [(''invalidToolCalls'', JArray itcs)] else [])
     @ (case usage of Some u \<Rightarrow> if js_truthy u then [(''usageMetadata'', u)] else []
        | None \<Rightarrow> [])"
| "ai_entries message = []"

definition extractMetadata :: "Message \<Rightarrow> bool \<Rightarrow> json option" where
  "extractMetadata message contentIsJson =
     (let metadata =
        (if contentIsJson then [(''contentIsJson'', JBool True)] else [])
        @ (if has_keys (additional_kwargs message)
           then [(''additional_kwargs'', additional_kwargs message)] else [])
        @ tool_entries message
        @ ai_entries message
      in if length metadata > 0 then Some (JObject metadata) else None)"

definition serializeMessage ::
  "'p collaborators \<Rightarrow> int \<Rightarrow> Message \<Rightarrow> int \<Rightarrow> ChatMemoryMessage" where
  "serializeMessage X now message sq =
     (let serialized = normalizeContent message;
          md = extractMetadata message (snd serialized)
      in \<lparr>role = getMessageType X message,
          content = fst serialized,
          sequence = sq,
          createdAt = Some now,
          metadata = md\<rparr>)"

subsection \<open>Deserialization\<close>

definition restoreContent :: "ChatMemoryMessage \<Rightarrow> json" where
  "restoreContent record =
     (if (case metadata record of
            Some m \<Rightarrow> (case js_get m ''contentIsJson'' of Some flag \<Rightarrow> js_truthy flag | None \<Rightarrow> False)
          | None \<Rightarrow> False) \<and> content record \<noteq> []
      then (case JSON_parse (content record) of
              Some parsed \<Rightarrow> parsed
            | None \<Rightarrow> JString (content record))
      else JString (content record))"

definition object_or :: "json option \<Rightarrow> json option" where
  "object_or v = (case v of Some x \<Rightarrow> if js_truthy x \<and> js_typeof_object x then Some x else None
                  | None \<Rightarrow> None)"

definition array_or :: "json option \<Rightarrow> json option" where
  "array_or v = (case v of Some (JArray xs) \<Rightarrow> Some (JArray xs) | _ \<Rightarrow> None)"

definition string_or :: "json option \<Rightarrow> string option" where
  "string_or v = (case v of Some (JString x) \<Rightarrow> Some x | _ \<Rightarrow> None)"

definition content_text :: "json \<Rightarrow> string" where
  "content_text c = (case c of JString x \<Rightarrow> x | v \<Rightarrow> JSON_stringify v)"

text \<open>
  \<open>toolFields\<close> and \<open>aiFields\<close> are the objects \<open>toolFields\<close> and
  \<open>fields\<close> that \<open>deserializeMessage\<close> fills for the constructors of a
  tool and of an AI message: the content, and one property after the other as the
  metadata holds it.
\<close>

definition toolFields :: "json \<Rightarrow> json \<Rightarrow> (string \<times> json) list" where
  "toolFields c md =
     [(''content'', c),
      (''tool_call_id'',
       JString (case string_or (js_get md ''toolCallId'') of Some tid \<Rightarrow> tid | None \<Rightarrow> []))]
     @ (case string_or (js_get md ''toolStatus'') of
          Some st \<Rightarrow> [(''status'', JString st)] | None \<Rightarrow> [])
     @ (case js_get md ''artifact'' of Some art \<Rightarrow> [(''artifact'', art)] | None \<Rightarrow> [])
     @ (case object_or (js_get md ''toolMetadata'') of
          Some m \<Rightarrow> [(''metadata'', m)] | None \<Rightarrow> [])
     @ (case object_or (js_get md ''additional_kwargs'') of
          Some kw \<Rightarrow> [(''additional_kwargs'', kw)] | None \<Rightarrow> [])"

definition aiFields :: "json \<Rightarrow> json \<Rightarrow> (string \<times> json) list" where
  "aiFields c md =
     [(''content'', c)]
     @ (case array_or (js_get md ''toolCalls'') of
          Some tcs \<Rightarrow> [(''tool_calls'', tcs)] | None \<Rightarrow> [])
     @ (case array_or (js_get md ''invalidToolCalls'') of
          Some itcs \<Rightarrow> [(''invalid_tool_calls'', itcs)] | None \<Rightarrow> [])
     @ (case object_or (js_get md ''additional_kwargs'') of
          Some kw \<Rightarrow> [(''additional_kwargs'', kw)] | None \<Rightarrow> [])
     @ (case object_or (js_get md ''usageMetadata'') of
          Some u \<Rightarrow> [(''usage_metadata'', u)] | None \<Rightarrow> [])"

definition deserializeMessage :: "'p collaborators \<Rightarrow> ChatMemoryMessage \<Rightarrow> error + Message" where
  "deserializeMessage X record =
     (let c = restoreContent record;
          md = (case metadata record of Some m \<Rightarrow> (if m = JNull then JObject [] else m)
                | None \<Rightarrow> JObject [])
      in if role record = SYSTEM then new_message X (New_SystemMessage c)
         else if role record = HUMAN then new_message X (New_HumanMessage c)
         else if role record = TOOL then new_message X (New_ToolMessage (toolFields c md))
         else if role record = BROWSER_STATE
           then new_message X (New_BrowserStateMessage (content_text c))
         else if role record = TODO_LIST
           then new_message X (New_TodoListMessage (content_text c))
         else new_message X (New_AIMessage (aiFields c md)))"

subsection \<open>Persisting and the mutating operations\<close>

text \<open>
  \<open>persistMessages\<close> serializes the whole list, each message with its index, and
  hands the rows to \<open>replaceConversation\<close>; a throw from there is logged. The four
  overrides call the inherited method first.
\<close>

definition serialize_all :: "'p collaborators \<Rightarrow> int \<Rightarrow> Message list \<Rightarrow> ChatMemoryMessage list" where
  "serialize_all X now ms =
     map (\<lambda>(index, message). serializeMessage X now message (int index)) (enumerate 0 ms)"

definition persistMessages ::
  "'p collaborators \<Rightarrow> runtime \<Rightarrow> 'p PersistentMessageManager \<Rightarrow> 'p PersistentMessageManager" where
  "persistMessages X rt s =
     (case memory_replaceConversation rt (conversationId s)
             (serialize_all X (clock rt) (super_getMessages X (pipeline s))) (memory s) of
        (Inl e, m) \<Rightarrow>
          s\<lparr>memory := m,
            manager_log := manager_log s @ [warn ''Failed to persist chat history: '' e]\<rparr>
      | (Inr u, m) \<Rightarrow> s\<lparr>memory := m\<rparr>)"

definition add ::
  "'p collaborators \<Rightarrow> runtime \<Rightarrow> Message \<Rightarrow> nat option \<Rightarrow> 'p PersistentMessageManager
   \<Rightarrow> 'p PersistentMessageManager" where
  "add X rt message position s =
     (let s1 = s\<lparr>pipeline := super_add X message position (pipeline s)\<rparr>
      in if \<not> restoring s1 then persistMessages X rt s1 else s1)"

definition clear ::
  "'p collaborators \<Rightarrow> runtime \<Rightarrow> 'p PersistentMessageManager \<Rightarrow> 'p PersistentMessageManager" where
  "clear X rt s =
     (let s1 = s\<lparr>pipeline := super_clear X (pipeline s)\<rparr>
      in if \<not> restoring s1
         then (case memory_clearConversation rt (conversationId s1) (memory s1) of
                 (Inl e, m) \<Rightarrow>
                   s1\<lparr>memory := m,
                      manager_log := manager_log s1 @ [warn ''Failed to clear stored conversation: '' e]\<rparr>
               | (Inr u, m) \<Rightarrow> s1\<lparr>memory := m\<rparr>)
         else s1)"

definition removeLast ::
  "'p collaborators \<Rightarrow> runtime \<Rightarrow> 'p PersistentMessageManager
   \<Rightarrow> bool \<times> 'p PersistentMessageManager" where
  "removeLast X rt s =
     (let (removed, p) = super_removeLast X (pipeline s);
          s1 = s\<lparr>pipeline := p\<rparr>
      in if removed \<and> \<not> restoring s1 then (removed, persistMessages X rt s1) else (removed, s1))"

definition setMaxTokens ::
  "'p collaborators \<Rightarrow> runtime \<Rightarrow> int \<Rightarrow> 'p PersistentMessageManager \<Rightarrow> 'p PersistentMessageManager" where
  "setMaxTokens X rt newMaxTokens s =
     (let s1 = s\<lparr>pipeline := super_setMaxTokens X newMaxTokens (pipeline s)\<rparr>
      in if \<not> restoring s1 then persistMessages X rt s1 else s1)"

subsection \<open>Construction\<close>

text \<open>
  \<open>initializeMemory\<close> guards \<open>initialize\<close> of a supplied adapter and nothing
  else: a throw from \<open>isAvailable\<close>, from \<open>initialize\<close> of the adapter it
  builds itself or from the fallback leaves the constructor. The result is the adapter
  chosen and what was logged on the way.
\<close>

definition createFallbackMemory :: "error + ChatMemoryAdapter" where
  "createFallbackMemory =
     (case InMemoryChatMemory_initialize new_InMemoryChatMemory of
        (Inl e, fallback) \<Rightarrow> Inl e
      | (Inr u, fallback) \<Rightarrow> Inr (InMemory fallback))"

definition use_if_available ::
  "runtime \<Rightarrow> ChatMemoryAdapter \<Rightarrow> log_entry list \<Rightarrow> string
   \<Rightarrow> error + ChatMemoryAdapter \<times> log_entry list" where
  "use_if_available rt m entries complaint =
     (case memory_isAvailable rt m of
        (Inl e, m') \<Rightarrow> Inl e
      | (Inr available, m') \<Rightarrow>
          if available then Inr (m', entries)
          else (case createFallbackMemory of
                  Inl e \<Rightarrow> Inl e
                | Inr fallback \<Rightarrow>
                    Inr (fallback, entries @ [(''PersistentMessageManager'', complaint, ''warning'')])))"

definition initializeMemory ::
  "runtime \<Rightarrow> PersistentMessageManagerOptions \<Rightarrow> error + ChatMemoryAdapter \<times> log_entry list" where
  "initializeMemory rt options =
     (case opt_memory options of
        Some supplied \<Rightarrow>
          (case memory_initialize rt supplied of
             (Inl e, m) \<Rightarrow>
               use_if_available rt m [warn ''Failed to initialize provided chat memory: '' e]
                 ''Provided chat memory is unavailable - using fallback''
           | (Inr u, m) \<Rightarrow>
               use_if_available rt m [] ''Provided chat memory is unavailable - using fallback'')
      | None \<Rightarrow>
          (case memory_initialize rt (SQLite (new_SQLiteChatMemory rt (opt_dbPath options) None)) of
             (Inl e, m) \<Rightarrow> Inl e
           | (Inr u, m) \<Rightarrow>
               use_if_available rt m [] ''SQLite chat memory unavailable - using in-memory fallback''))"

text \<open>
  \<open>restoreFromMemory\<close>: the loop appends through the inherited \<open>add\<close>, so it
  writes nothing; it stops at the first throw, which the \<open>catch\<close> logs; the
  \<open>finally\<close> clears the flag on every path.
\<close>

fun restore_loop ::
  "'p collaborators \<Rightarrow> ChatMemoryMessage list \<Rightarrow> 'p PersistentMessageManager
   \<Rightarrow> (error + unit) \<times> 'p PersistentMessageManager" where
  "restore_loop X [] s = (Inr (), s)"
| "restore_loop X (stored # rest) s =
     (case deserializeMessage X stored of
        Inl e \<Rightarrow> (Inl e, s)
      | Inr message \<Rightarrow>
          restore_loop X rest (s\<lparr>pipeline := super_add X message None (pipeline s)\<rparr>))"

definition restoreFromMemory_try ::
  "'p collaborators \<Rightarrow> runtime \<Rightarrow> 'p PersistentMessageManager
   \<Rightarrow> (error + unit) \<times> 'p PersistentMessageManager" where
  "restoreFromMemory_try X rt s =
     (case memory_getMessages rt (conversationId s) (memory s) of
        (Inl e, m) \<Rightarrow> (Inl e, s\<lparr>memory := m\<rparr>)
      | (Inr storedMessages, m) \<Rightarrow>
          if length storedMessages = 0 then (Inr (), s\<lparr>memory := m\<rparr>)
          else restore_loop X storedMessages (s\<lparr>memory := m, restoring := True\<rparr>))"

definition restoreFromMemory ::
  "'p collaborators \<Rightarrow> runtime \<Rightarrow> 'p PersistentMessageManager \<Rightarrow> 'p PersistentMessageManager" where
  "restoreFromMemory X rt s =
     (case restoreFromMemory_try X rt s of
        (Inl e, s') \<Rightarrow>
          s'\<lparr>manager_log := manager_log s' @ [warn ''Failed to restore chat history: '' e],
             restoring := False\<rparr>
      | (Inr u, s') \<Rightarrow> s'\<lparr>restoring := False\<rparr>)"

definition resolved_conversationId :: "runtime \<Rightarrow> PersistentMessageManagerOptions \<Rightarrow> string" where
  "resolved_conversationId rt options =
     (case opt_conversationId options of
        Some cid \<Rightarrow> cid
      | None \<Rightarrow> (case env_BROWSEROS_CHAT_MEMORY_ID rt of Some cid \<Rightarrow> cid | None \<Rightarrow> ''default''))"

definition new_PersistentMessageManager ::
  "'p collaborators \<Rightarrow> runtime \<Rightarrow> PersistentMessageManagerOptions
   \<Rightarrow> error + 'p PersistentMessageManager" where
  "new_PersistentMessageManager X rt options =
     (case initializeMemory rt options of
        Inl e \<Rightarrow> Inl e
      | Inr (m, entries) \<Rightarrow>
          Inr (restoreFromMemory X rt
                 \<lparr>pipeline = new_super X (opt_maxTokens options),
                  memory = m,
                  conversationId = resolved_conversationId rt options,
                  restoring = False,
                  manager_log = entries\<rparr>))"

section \<open>The transient backend with object identity\<close>

text \<open>
  Rows and metadata maps are JavaScript objects: a caller that holds a reference to one
  can change it after it has passed it to the backend, or after the backend has
  returned it. Here objects live in a heap of cells, a value is a primitive or a
  reference to a cell, and creating an object takes the next free cell. A row is an
  object with the properties \<open>role\<close>, \<open>content\<close>, \<open>sequence\<close>,
  \<open>createdAt\<close> and \<open>metadata\<close>; a row list is an array of references to
  rows. A caller's mutation of an object is \<open>heap_write\<close>: the cell gets any other
  contents.
\<close>

type_synonym ref = nat

datatype jsval = Undefined | Null | Bool bool | Number int | Str string | Ref ref

datatype object = Obj "(string \<times> jsval) list" | Arr "jsval list"

record heap =
  cells :: "ref \<Rightarrow> object option"
  next_ref :: ref

definition alloc :: "object \<Rightarrow> heap \<Rightarrow> ref \<times> heap" where
  "alloc ob h =
     (next_ref h, h\<lparr>cells := (cells h)(next_ref h \<mapsto> ob), next_ref := Suc (next_ref h)\<rparr>)"

definition heap_write :: "ref \<Rightarrow> object \<Rightarrow> heap \<Rightarrow> heap" where
  "heap_write r ob h = h\<lparr>cells := (cells h)(r \<mapsto> ob)\<rparr>"

fun truthy :: "jsval \<Rightarrow> bool" where
  "truthy Undefined = False"
| "truthy Null = False"
| "truthy (Bool b) = b"
| "truthy (Number i) = (i \<noteq> 0)"
| "truthy (Str s) = (s \<noteq> [])"
| "truthy (Ref r) = True"

definition elements :: "heap \<Rightarrow> ref \<Rightarrow> jsval list" where
  "elements h r = (case cells h r of Some (Arr xs) \<Rightarrow> xs | _ \<Rightarrow> [])"

fun spread :: "heap \<Rightarrow> jsval \<Rightarrow> (string \<times> jsval) list" where
  "spread h (Ref r) =
     (case cells h r of
        Some (Obj ps) \<Rightarrow> ps
      | Some (Arr xs) \<Rightarrow> zip (index_keys (length xs)) xs
      | None \<Rightarrow> [])"
| "spread h (Str s) = zip (index_keys (length s)) (map (\<lambda>c. Str [c]) s)"
| "spread h v = []"

fun put :: "string \<Rightarrow> jsval \<Rightarrow> (string \<times> jsval) list \<Rightarrow> (string \<times> jsval) list" where
  "put k v [] = [(k, v)]"
| "put k v (p # ps) = (if fst p = k then (k, v) # ps else p # put k v ps)"

text \<open>
  The callback of the two \<open>map\<close> calls,
  \<open>message => ({ ...message, metadata: message.metadata ? { ...message.metadata } : undefined })\<close>:
  a new object with the properties of the message, whose \<open>metadata\<close> is a new
  object with the properties of the message's metadata. The property values are
  copied as they are: a value that is a reference still refers to the same cell.
\<close>

definition copy_message :: "heap \<Rightarrow> jsval \<Rightarrow> ref \<times> heap" where
  "copy_message h message =
     (let ps = spread h message;
          md = (case map_of ps ''metadata'' of Some v \<Rightarrow> v | None \<Rightarrow> Undefined)
      in if truthy md
         then (let (m, h1) = alloc (Obj (spread h md)) h
               in alloc (Obj (put ''metadata'' (Ref m) ps)) h1)
         else alloc (Obj (put ''metadata'' Undefined ps)) h)"

fun copy_messages :: "heap \<Rightarrow> jsval list \<Rightarrow> jsval list \<times> heap" where
  "copy_messages h [] = ([], h)"
| "copy_messages h (message # rest) =
     (let (r, h1) = copy_message h message;
          (rs, h2) = copy_messages h1 rest
      in (Ref r # rs, h2))"

type_synonym row_store = "string \<Rightarrow> ref option"

definition heap_replaceConversation ::
  "string \<Rightarrow> ref \<Rightarrow> row_store \<times> heap \<Rightarrow> row_store \<times> heap" where
  "heap_replaceConversation cid passed sh =
     (let (rs, h1) = copy_messages (snd sh) (elements (snd sh) passed);
          (a, h2) = alloc (Arr rs) h1
      in ((fst sh)(cid \<mapsto> a), h2))"

definition heap_getMessages :: "string \<Rightarrow> row_store \<times> heap \<Rightarrow> ref \<times> heap" where
  "heap_getMessages cid sh =
     (case fst sh cid of
        None \<Rightarrow> alloc (Arr []) (snd sh)
      | Some kept \<Rightarrow>
          (let (rs, h1) = copy_messages (snd sh) (elements (snd sh) kept)
           in alloc (Arr rs) h1))"

definition heap_clearConversation :: "string \<Rightarrow> row_store \<times> heap \<Rightarrow> row_store \<times> heap" where
  "heap_clearConversation cid sh = ((fst sh)(cid := None), snd sh)"

chapter \<open>Notions and inputs of the statements\<close>

section \<open>Notions\<close>

text \<open>
  What may follow a printed number for the parser to read the number back: nothing, or
  a character that is not a digit.
\<close>

definition delimited :: "string \<Rightarrow> bool" where
  "delimited r = (case r of [] \<Rightarrow> True | c # _ \<Rightarrow> \<not> is_digit c)"




text \<open>
  \<open>ensureDatabase\<close> on an object without a handle succeeds when the driver is at
  hand and no step of opening the store throws. When it fails it leaves the object as
  \<open>init_failed\<close> says, the message of \<open>init_error\<close> in its log.
\<close>

definition init_ok :: "runtime \<Rightarrow> SQLiteChatMemory \<Rightarrow> bool" where
  "init_ok rt s = ((driver s \<or> require_driver rt) \<and> init_fault rt = None)"

definition init_error :: "runtime \<Rightarrow> SQLiteChatMemory \<Rightarrow> error" where
  "init_error rt s = (case fst (ensureDatabase_try rt s) of Inl e \<Rightarrow> e | Inr u \<Rightarrow> Error [])"

definition init_failed :: "runtime \<Rightarrow> SQLiteChatMemory \<Rightarrow> SQLiteChatMemory" where
  "init_failed rt s =
     s\<lparr>driver := driver s \<or> require_driver rt,
       sqlite_log := sqlite_log s @
         [(''SQLiteChatMemory'',
           ''Failed to initialize SQLite memory: '' @ error_message (init_error rt s), ''warning'')],
       database := False, statements := False\<rparr>"

text \<open>
  What an adapter stores: the store in the file, or the map.
\<close>

definition stored_state :: "ChatMemoryAdapter \<Rightarrow> database + (string \<Rightarrow> ChatMemoryMessage list option)" where
  "stored_state a = (case a of SQLite s \<Rightarrow> Inl (disk s) | InMemory m \<Rightarrow> Inr (store m))"

text \<open>
  A row as the manager writes it has a timestamp, and metadata that, when present, is an
  object. An adapter is in order when a durable adapter that holds a handle holds its
  statements too (the two fields are set and cleared together), and it is open when it
  holds both (the transient adapter always is).
\<close>

fun is_JObject :: "json \<Rightarrow> bool" where
  "is_JObject (JObject kvs) = True"
| "is_JObject v = False"

definition well_formed_row :: "ChatMemoryMessage \<Rightarrow> bool" where
  "well_formed_row r =
     (createdAt r \<noteq> None \<and> (case metadata r of None \<Rightarrow> True | Some m \<Rightarrow> is_JObject m))"

definition adapter_ok :: "ChatMemoryAdapter \<Rightarrow> bool" where
  "adapter_ok a = (case a of SQLite s \<Rightarrow> database s \<longrightarrow> statements s | InMemory m \<Rightarrow> True)"

definition adapter_open :: "ChatMemoryAdapter \<Rightarrow> bool" where
  "adapter_open a = (case a of SQLite s \<Rightarrow> database s \<and> statements s | InMemory m \<Rightarrow> True)"

text \<open>
  The rows of \<open>chat_messages\<close> that a successful replace inserts for a row list,
  numbered from the row id the store has reached.
\<close>

fun stored_as :: "string \<Rightarrow> int \<Rightarrow> nat \<Rightarrow> ChatMemoryMessage list \<Rightarrow> chat_messages_row list" where
  "stored_as cid now n [] = []"
| "stored_as cid now n (row # rows) =
     \<lparr>col_id = Suc n, col_conversation_id = cid, col_role = role row,
      col_content = content row, col_metadata = metadataJson row,
      col_sequence = sequence row,
      col_created_at = (case createdAt row of Some t \<Rightarrow> t | None \<Rightarrow> now)\<rparr>
     # stored_as cid now (Suc n) rows"

text \<open>
  The stored rows mirror the in-memory list: what \<open>getMessages\<close> reads (in runtime
  \<open>rt'\<close>) is the serialization (made in runtime \<open>rt\<close>) of the manager's current
  list, one row per message, the sequences counting up from 0.
\<close>

definition rewritten ::
  "'p collaborators \<Rightarrow> runtime \<Rightarrow> runtime \<Rightarrow> 'p PersistentMessageManager \<Rightarrow> bool" where
  "rewritten X rt rt' s =
     (\<exists>rows. fst (memory_getMessages rt' (conversationId s) (memory s)) = Inr rows
        \<and> rows = serialize_all X (clock rt) (super_getMessages X (pipeline s))
        \<and> length rows = length (super_getMessages X (pipeline s))
        \<and> map sequence rows = map int [0..<length (super_getMessages X (pipeline s))])"

text \<open>
  \<open>metadata.k\<close> where \<open>metadata = record.metadata ?? {}\<close>, and the entries
  \<open>extractMetadata\<close> collects, as a list.
\<close>

definition metadata_get :: "json option \<Rightarrow> string \<Rightarrow> json option" where
  "metadata_get md k =
     js_get (case md of Some m \<Rightarrow> (if m = JNull then JObject [] else m) | None \<Rightarrow> JObject []) k"

definition metadata_entries :: "Message \<Rightarrow> bool \<Rightarrow> (string \<times> json) list" where
  "metadata_entries message flag =
     (if flag then [(''contentIsJson'', JBool True)] else [])
     @ (if has_keys (additional_kwargs message)
        then [(''additional_kwargs'', additional_kwargs message)] else [])
     @ tool_entries message
     @ ai_entries message"


definition reopened ::
  "int option \<Rightarrow> string option \<Rightarrow> 'p PersistentMessageManager \<Rightarrow> PersistentMessageManagerOptions" where
  "reopened budget path s =
     \<lparr>opt_maxTokens = budget, opt_conversationId = Some (conversationId s),
      opt_dbPath = path, opt_memory = Some (memory s)\<rparr>"

text \<open>
  What a caller can see of a result. \<open>deep\<close> reads a value to the JSON value it
  holds, following references (to the depth given); \<open>returned_deep\<close> is what a call
  of \<open>getMessages\<close> returns, read that way. \<open>row_view\<close> reads one row one
  level deep: the row's own properties other than \<open>metadata\<close>, and the properties
  of its metadata map, each value as it stands (a reference stays a reference);
  \<open>returned_rows\<close> is what a call of \<open>getMessages\<close> returns, read that way.
\<close>

fun deep :: "nat \<Rightarrow> heap \<Rightarrow> jsval \<Rightarrow> json" where
  "deep 0 h v = JNull"
| "deep (Suc n) h Undefined = JNull"
| "deep (Suc n) h Null = JNull"
| "deep (Suc n) h (Bool b) = JBool b"
| "deep (Suc n) h (Number i) = JNumber i"
| "deep (Suc n) h (Str s) = JString s"
| "deep (Suc n) h (Ref r) =
     (case cells h r of
        Some (Obj ps) \<Rightarrow> JObject (map (\<lambda>p. (fst p, deep n h (snd p))) ps)
      | Some (Arr xs) \<Rightarrow> JArray (map (deep n h) xs)
      | None \<Rightarrow> JNull)"

definition returned_deep :: "nat \<Rightarrow> string \<Rightarrow> row_store \<times> heap \<Rightarrow> json" where
  "returned_deep n cid sh = (let (res, h') = heap_getMessages cid sh in deep n h' (Ref res))"

definition row_view :: "heap \<Rightarrow> jsval \<Rightarrow> (string \<times> jsval) list \<times> (string \<times> jsval) list option" where
  "row_view h message =
     (let ps = spread h message
      in (filter (\<lambda>p. fst p \<noteq> ''metadata'') ps,
          case map_of ps ''metadata'' of Some (Ref m) \<Rightarrow> Some (spread h (Ref m)) | _ \<Rightarrow> None))"

definition returned_rows ::
  "string \<Rightarrow> row_store \<times> heap \<Rightarrow> ((string \<times> jsval) list \<times> (string \<times> jsval) list option) list" where
  "returned_rows cid sh =
     (let (res, h') = heap_getMessages cid sh in map (row_view h') (elements h' res))"

text \<open>
  The objects a caller that holds an array of rows can change without looking into a
  nested value: the array itself, the rows in it and the metadata maps of these rows.
  \<open>kept_rows\<close> is what the backend holds for a conversation, read the way
  \<open>returned_rows\<close> reads a result.
\<close>

fun row_handles :: "heap \<Rightarrow> jsval \<Rightarrow> ref list" where
  "row_handles h (Ref c) =
     c # (case map_of (spread h (Ref c)) ''metadata'' of Some (Ref m) \<Rightarrow> [m] | _ \<Rightarrow> [])"
| "row_handles h v = []"

definition handles :: "heap \<Rightarrow> ref \<Rightarrow> ref list" where
  "handles h a = a # concat (map (row_handles h) (elements h a))"

definition kept_rows ::
  "string \<Rightarrow> row_store \<times> heap \<Rightarrow> ((string \<times> jsval) list \<times> (string \<times> jsval) list option) list" where
  "kept_rows cid sh =
     (case fst sh cid of
        Some kept \<Rightarrow> map (row_view (snd sh)) (elements (snd sh) kept)
      | None \<Rightarrow> [])"

text \<open>
  The artifact in the metadata of the only row of a result.
\<close>

definition artifact_of :: "json \<Rightarrow> json option" where
  "artifact_of result =
     (case result of
        JArray [row] \<Rightarrow>
          (case js_get row ''metadata'' of Some md \<Rightarrow> js_get md ''artifact'' | None \<Rightarrow> None)
      | _ \<Rightarrow> None)"

text \<open>
  Two heaps agree on a range of cells; a value is a row the backend owns in a range: a
  reference into the range to an object whose \<open>metadata\<close> is \<open>undefined\<close> or a
  reference into the range to an object.
\<close>

definition agree :: "ref \<Rightarrow> ref \<Rightarrow> heap \<Rightarrow> heap \<Rightarrow> bool" where
  "agree lo hi g h = (\<forall>a. lo \<le> a \<and> a < hi \<longrightarrow> cells g a = cells h a)"

definition owned :: "ref \<Rightarrow> ref \<Rightarrow> heap \<Rightarrow> jsval \<Rightarrow> bool" where
  "owned lo hi h v =
     (\<exists>c ps. v = Ref c \<and> lo \<le> c \<and> c < hi \<and> cells h c = Some (Obj ps)
        \<and> (map_of ps ''metadata'' = Some Undefined
            \<or> (\<exists>m mps. map_of ps ''metadata'' = Some (Ref m) \<and> lo \<le> m \<and> m < hi
                  \<and> cells h m = Some (Obj mps))))"

section \<open>Concrete inputs\<close>

text \<open>
  Every statement below is about any pipeline and any message library. Where an example
  needs them, they are these. The pipeline keeps a list of messages and the budget it
  was given: \<open>add\<close> appends, or inserts at the position given,
  \<open>removeLast\<close> removes the last message and reports whether there was one, and
  the kind tag of a message is that of its class. It records the budget and drops
  nothing: how the real pipeline enforces its budget is not in these sources. The
  library builds a system or human message from a content string, with no annotations,
  as the constructors of the real library do when their first argument is a string.
  At every other call it throws; no statement below depends on that.
\<close>

record MessageManager =
  messages :: "Message list"
  maxTokens :: "int option"

fun kind_tag :: "Message \<Rightarrow> string" where
  "kind_tag (SystemMessage c kw) = SYSTEM"
| "kind_tag (HumanMessage c kw) = HUMAN"
| "kind_tag (AIMessage c kw tcs itcs usage) = AI"
| "kind_tag (ToolMessage c kw tid st art md) = TOOL"
| "kind_tag (BrowserStateMessage c kw) = BROWSER_STATE"
| "kind_tag (TodoListMessage c kw) = TODO_LIST"

definition list_add :: "Message \<Rightarrow> nat option \<Rightarrow> MessageManager \<Rightarrow> MessageManager" where
  "list_add message position p =
     (case position of
        None \<Rightarrow> p\<lparr>messages := messages p @ [message]\<rparr>
      | Some i \<Rightarrow> p\<lparr>messages := take i (messages p) @ message # drop i (messages p)\<rparr>)"

definition list_removeLast :: "MessageManager \<Rightarrow> bool \<times> MessageManager" where
  "list_removeLast p =
     (if messages p = [] then (False, p) else (True, p\<lparr>messages := butlast (messages p)\<rparr>))"

definition text_message :: "constructor_call \<Rightarrow> error + Message" where
  "text_message call =
     (case call of
        New_SystemMessage (JString x) \<Rightarrow> Inr (SystemMessage (JString x) (JObject []))
      | New_HumanMessage (JString x) \<Rightarrow> Inr (HumanMessage (JString x) (JObject []))
      | _ \<Rightarrow> Inl (Error ''not a call of the examples''))"

definition list_pipeline :: "MessageManager collaborators" where
  "list_pipeline =
     \<lparr>new_super = (\<lambda>budget. \<lparr>messages = [], maxTokens = budget\<rparr>),
      super_add = list_add,
      super_removeLast = list_removeLast,
      super_clear = (\<lambda>p. p\<lparr>messages := []\<rparr>),
      super_setMaxTokens = (\<lambda>n p. p\<lparr>maxTokens := Some n\<rparr>),
      super_getMessages = messages,
      getMessageType = kind_tag,
      new_message = text_message\<rparr>"

text \<open>
  A runtime in which the driver loads and nothing fails, and one without the driver.
\<close>

definition node_runtime :: runtime where
  "node_runtime =
     \<lparr>require_driver = True, init_fault = None, stmt_fault = None, clock = 1000,
      env_BROWSEROS_CHAT_MEMORY_ID = None, env_BROWSEROS_CHAT_MEMORY_PATH = None,
      cwd = ''/srv/agent'', path_join = None, files = (\<lambda>p. empty_database)\<rparr>"

definition browser_runtime :: runtime where
  "browser_runtime = node_runtime\<lparr>require_driver := False\<rparr>"

text \<open>
  A row without metadata; a durable adapter that has stored two such rows.
\<close>

definition plain_row :: "string \<Rightarrow> string \<Rightarrow> int \<Rightarrow> ChatMemoryMessage" where
  "plain_row r c i = \<lparr>role = r, content = c, sequence = i, createdAt = Some 1000, metadata = None\<rparr>"

definition two_stored :: SQLiteChatMemory where
  "two_stored =
     snd (SQLiteChatMemory_replaceConversation node_runtime ''persist-case''
            [plain_row SYSTEM ''System prompt'' 0, plain_row HUMAN ''Hello world'' 1]
            (new_SQLiteChatMemory node_runtime None None))"

text \<open>
  A manager with an empty pipeline over the transient backend; the manager constructed
  over a new durable adapter for the conversation \<open>persist-case\<close>; that manager
  after the three messages of the specification's scenario were added.
\<close>

definition idle_manager :: "MessageManager PersistentMessageManager" where
  "idle_manager =
     \<lparr>pipeline = \<lparr>messages = [], maxTokens = None\<rparr>,
      memory = InMemory new_InMemoryChatMemory,
      conversationId = ''default'',
      restoring = False,
      manager_log = []\<rparr>"

definition persist_case :: "MessageManager PersistentMessageManager" where
  "persist_case =
     (case new_PersistentMessageManager list_pipeline node_runtime
             \<lparr>opt_maxTokens = None, opt_conversationId = Some ''persist-case'',
              opt_dbPath = None,
              opt_memory = Some (SQLite (new_SQLiteChatMemory node_runtime
                                   (Some ''/tmp/persist-case.sqlite'') None))\<rparr> of
        Inr s \<Rightarrow> s
      | Inl e \<Rightarrow> idle_manager)"

definition three_added :: "MessageManager PersistentMessageManager" where
  "three_added =
     add list_pipeline node_runtime (AIMessage (JString ''Hi there!'') (JObject []) [] [] None) None
       (add list_pipeline node_runtime (HumanMessage (JString ''Hello world'') (JObject [])) None
          (add list_pipeline node_runtime (SystemMessage (JString ''System prompt'') (JObject [])) None
             persist_case))"

text \<open>
  A message library whose tool message constructor throws on an empty call id; three
  rows, the second a tool row without metadata; the options of a manager over a
  transient adapter that stores them.
\<close>

definition strict_library :: "MessageManager collaborators" where
  "strict_library =
     list_pipeline\<lparr>new_message :=
       (\<lambda>call. case call of
          New_ToolMessage properties \<Rightarrow>
            if map_of properties ''tool_call_id'' = Some (JString [])
            then Inl (Error ''tool_call_id is required'') else text_message call
        | _ \<Rightarrow> text_message call)\<rparr>"

definition three_rows :: "ChatMemoryMessage list" where
  "three_rows =
     [plain_row SYSTEM ''System prompt'' 0, plain_row TOOL ''42'' 1,
      plain_row HUMAN ''Hello world'' 2]"

definition transient_three :: PersistentMessageManagerOptions where
  "transient_three =
     \<lparr>opt_maxTokens = None, opt_conversationId = None, opt_dbPath = None,
      opt_memory = Some (InMemory (snd (InMemoryChatMemory_replaceConversation ''default''
                                         three_rows new_InMemoryChatMemory)))\<rparr>"

text \<open>
  A human message with an annotation; a human message whose content is a list of
  content parts.
\<close>

definition annotated_human :: Message where
  "annotated_human =
     HumanMessage (JString ''Hello world'') (JObject [(''source'', JString ''user'')])"


text \<open>
  An example: one tool row whose metadata holds an artifact, itself an object (cell 0).
  Cell 1 is the metadata map, cell 2 the row, cell 3 the array passed to
  \<open>replaceConversation\<close>.
\<close>

definition tool_heap :: heap where
  "tool_heap =
     \<lparr>cells =
        (\<lambda>r. None)
          (0 \<mapsto> Obj [(''rows'', Number 3)],
           1 \<mapsto> Obj [(''toolCallId'', Str ''call_1''), (''artifact'', Ref 0)],
           2 \<mapsto> Obj [(''role'', Str ''tool''), (''content'', Str ''sunny''),
                     (''sequence'', Number 0), (''createdAt'', Number 1000),
                     (''metadata'', Ref 1)],
           3 \<mapsto> Arr [Ref 2]),
      next_ref = 4\<rparr>"

text \<open>
  The backend after the row list of the example was passed to
  \<open>replaceConversation\<close>.
\<close>

definition tool_stored :: "row_store \<times> heap" where
  "tool_stored = heap_replaceConversation ''default'' 3 (\<lambda>cid. None, tool_heap)"

chapter \<open>Properties\<close>

section \<open>Parsing what was printed gives the value back\<close>

lemma parse_string_escape:
  "parse_string (escape s @ CHR 0x22 # rest) = Some (s, rest)"
proof (induction s)
  case Nil
  show ?case by (cases rest) simp_all
next
  case (Cons c cs)
  show ?case
  proof (cases "c = CHR 0x22 \<or> c = CHR 0x5C")
    case True
    then show ?thesis using Cons by auto
  next
    case False
    then show ?thesis using Cons
      by (cases "escape cs @ CHR 0x22 # rest") auto
  qed
qed

lemma is_digit_digit_char: "d < 10 \<Longrightarrow> is_digit (digit_char d)"
  by (simp add: is_digit_def digit_char_def)

lemma digit_val_digit_char: "d < 10 \<Longrightarrow> digit_val (digit_char d) = d"
  by (simp add: digit_val_def digit_char_def)

lemma digits_all_digit: "\<forall>c \<in> set (digits n). is_digit c"
proof (induction n rule: digits.induct)
  case (1 n)
  show ?case
  proof (cases "n < 10")
    case True
    then show ?thesis by (subst digits.simps) (simp add: is_digit_digit_char)
  next
    case False
    then show ?thesis using 1
      by (subst digits.simps) (simp add: is_digit_digit_char)
  qed
qed

lemma digits_nonempty: "digits n \<noteq> []"
  by (subst digits.simps) simp

lemma number_of_digits_append:
  "number_of_digits (ds @ [c]) = number_of_digits ds * 10 + digit_val c"
  by (simp add: number_of_digits_def)

lemma number_of_digits_digits: "number_of_digits (digits n) = n"
proof (induction n rule: digits.induct)
  case (1 n)
  show ?case
  proof (cases "n < 10")
    case True
    then show ?thesis
      by (subst digits.simps) (simp add: number_of_digits_def digit_val_digit_char)
  next
    case False
    then have "number_of_digits (digits (n div 10)) = n div 10" using 1 by simp
    with False show ?thesis
      by (subst digits.simps) (simp add: number_of_digits_append digit_val_digit_char)
  qed
qed

lemma takeWhile_digits:
  "delimited rest \<Longrightarrow> takeWhile is_digit (digits n @ rest) = digits n"
  using digits_all_digit [of n]
  by (cases rest) (simp_all add: delimited_def takeWhile_append2 takeWhile_tail)

lemma dropWhile_digits:
  "delimited rest \<Longrightarrow> dropWhile is_digit (digits n @ rest) = rest"
  using digits_all_digit [of n]
  by (cases rest) (simp_all add: delimited_def dropWhile_append2)

lemma show_int_Cons:
  "\<exists>c r. show_int i = c # r \<and> (c = CHR ''-'' \<or> is_digit c)"
proof (cases "i < 0")
  case True
  then show ?thesis by (simp add: show_int_def)
next
  case False
  obtain c r where cr: "digits (nat i) = c # r"
    using digits_nonempty [of "nat i"] by (cases "digits (nat i)") auto
  moreover have "is_digit c"
    using digits_all_digit [of "nat i"] cr by simp
  ultimately show ?thesis using False by (simp add: show_int_def)
qed

lemma parse_number_show_int:
  assumes "delimited rest"
  shows "parse_number (show_int i @ rest) = Some (i, rest)"
proof (cases "i < 0")
  case True
  then show ?thesis
    using assms digits_nonempty [of "nat (- i)"]
    by (simp add: parse_number_def show_int_def takeWhile_digits dropWhile_digits
        number_of_digits_digits)
next
  case False
  obtain c r where cr: "digits (nat i) = c # r"
    using digits_nonempty [of "nat i"] by (cases "digits (nat i)") auto
  have d: "is_digit c"
    using digits_all_digit [of "nat i"] cr by simp
  then have nm: "c \<noteq> CHR ''-''" by (auto simp: is_digit_def)
  have tw: "takeWhile is_digit (digits (nat i) @ rest) = digits (nat i)"
    and dw: "dropWhile is_digit (digits (nat i) @ rest) = rest"
    using assms by (simp_all add: takeWhile_digits dropWhile_digits)
  have "parse_number (digits (nat i) @ rest) =
      Some (int (number_of_digits (digits (nat i))), rest)"
    unfolding parse_number_def using cr nm tw dw digits_nonempty [of "nat i"]
    by (simp del: takeWhile.simps dropWhile.simps split: list.splits) 
  then show ?thesis using False by (simp add: show_int_def number_of_digits_digits)
qed

lemma parse_value_number:
  assumes "delimited rest"
  shows "parse_value (Suc n) (show_int i @ rest) = Some (JNumber i, rest)"
proof -
  obtain c r where cr: "show_int i = c # r" and c: "c = CHR ''-'' \<or> is_digit c"
    using show_int_Cons by blast
  from c have ne: "c \<noteq> CHR ''n''" "c \<noteq> CHR ''t''" "c \<noteq> CHR ''f''" "c \<noteq> CHR ''[''"
    "c \<noteq> CHR ''{''" "c \<noteq> CHR 0x22"
    by (auto simp: is_digit_def)
  have "parse_value (Suc n) (c # r @ rest) =
      (case parse_number (c # r @ rest) of None \<Rightarrow> None | Some (i, r) \<Rightarrow> Some (JNumber i, r))"
    using ne by simp
  then show ?thesis
    using parse_number_show_int [OF assms, of i] cr by simp
qed

lemma stringify_Cons:
  "\<exists>c r. JSON_stringify v = c # r \<and> c \<noteq> CHR '']'' \<and> c \<noteq> CHR ''}''"
proof (cases v)
  case (JNumber i)
  obtain c r where "show_int i = c # r" "c = CHR ''-'' \<or> is_digit c"
    using show_int_Cons by blast
  then show ?thesis using JNumber by (auto simp: is_digit_def)
qed (simp_all add: quote_def)

lemma delimited_simps [simp]:
  "delimited (CHR '']'' # r)" "delimited (CHR ''}'' # r)" "delimited (CHR '','' # r)"
  by (simp_all add: delimited_def is_digit_def)

lemma parse_value_string:
  "parse_value (Suc n) (quote s @ rest) = Some (JString s, rest)"
  by (simp add: quote_def parse_string_escape)

lemma parse_stringify:
  "2 * length (JSON_stringify v @ rest) < n \<Longrightarrow> delimited rest \<Longrightarrow>
     parse_value n (JSON_stringify v @ rest) = Some (v, rest)"
  "xs \<noteq> [] \<Longrightarrow> 2 * length (stringify_elements xs @ CHR '']'' # rest) + 1 < n \<Longrightarrow>
     parse_elements n (stringify_elements xs @ CHR '']'' # rest) = Some (xs, rest)"
  "kvs \<noteq> [] \<Longrightarrow> 2 * length (stringify_members kvs @ CHR ''}'' # rest) + 1 < n \<Longrightarrow>
     parse_members n (stringify_members kvs @ CHR ''}'' # rest) = Some (kvs, rest)"
proof (induction v and xs and kvs arbitrary: n rest and n rest and n rest
    rule: JSON_stringify_stringify_elements_stringify_members.induct)
  case 1
  then obtain m where "n = Suc m" by (cases n) auto
  then show ?case by simp
next
  case (2 b)
  then obtain m where "n = Suc m" by (cases n) auto
  then show ?case by simp
next
  case (3 i)
  then obtain m where "n = Suc m" by (cases n) auto
  then show ?case using 3 by (simp add: parse_value_number del: parse_value.simps)
next
  case (4 s)
  then obtain m where "n = Suc m" by (cases n) auto
  then show ?case by (simp add: parse_value_string del: parse_value.simps)
next
  case (5 xs)
  then obtain m where n: "n = Suc m" by (cases n) auto
  show ?case
  proof (cases xs)
    case Nil
    then show ?thesis using n by simp
  next
    case (Cons x xs')
    obtain c r where cr: "JSON_stringify x = c # r" "c \<noteq> CHR '']''"
      using stringify_Cons by blast
    have hd: "\<exists>r'. stringify_elements xs = c # r'"
      using Cons cr by (cases xs') auto
    then obtain r' where r': "stringify_elements xs = c # r'" by blast
    have "parse_elements m (stringify_elements xs @ CHR '']'' # rest) = Some (xs, rest)"
      using 5 Cons n by (intro "5.IH") auto
    then show ?thesis using n r' cr by simp
  qed
next
  case (6 kvs)
  then obtain m where n: "n = Suc m" by (cases n) auto
  show ?case
  proof (cases kvs)
    case Nil
    then show ?thesis using n by simp
  next
    case (Cons kv kvs')
    have hd: "\<exists>r'. stringify_members kvs = CHR 0x22 # r'"
      using Cons by (cases kv; cases kvs') (auto simp: quote_def)
    then obtain r' where r': "stringify_members kvs = CHR 0x22 # r'" by blast
    have "parse_members m (stringify_members kvs @ CHR ''}'' # rest) = Some (kvs, rest)"
      using 6 Cons n by (intro "6.IH") auto
    then show ?thesis using n r' by simp
  qed
next
  case 7
  then show ?case by simp
next
  case (8 x)
  then obtain m where n: "n = Suc m" by (cases n) auto
  have "parse_value m (JSON_stringify x @ CHR '']'' # rest) = Some (x, CHR '']'' # rest)"
    using 8 n by (intro "8.IH") auto
  then show ?case using n by simp
next
  case (9 x y ys)
  then obtain m where n: "n = Suc m" by (cases n) auto
  have a: "parse_value m (JSON_stringify x @ CHR '','' # stringify_elements (y # ys) @ CHR '']'' # rest)
      = Some (x, CHR '','' # stringify_elements (y # ys) @ CHR '']'' # rest)"
    using 9(3,4) n by (intro "9.IH"(1)) auto
  have b: "parse_elements m (stringify_elements (y # ys) @ CHR '']'' # rest) = Some (y # ys, rest)"
    using 9(3,4) n by (intro "9.IH"(2)) auto
  show ?case using n a b by simp
next
  case 10
  then show ?case by simp
next
  case (11 k v)
  then obtain m where n: "n = Suc m" by (cases n) auto
  have "parse_value m (JSON_stringify v @ CHR ''}'' # rest) = Some (v, CHR ''}'' # rest)"
    using 11 n by (intro "11.IH") auto
  then show ?case using n by (simp add: quote_def parse_string_escape)
next
  case (12 k v kv kvs)
  then obtain m where n: "n = Suc m" by (cases n) auto
  have a: "parse_value m (JSON_stringify v @ CHR '','' # stringify_members (kv # kvs) @ CHR ''}'' # rest)
      = Some (v, CHR '','' # stringify_members (kv # kvs) @ CHR ''}'' # rest)"
    using 12(3,4) n by (intro "12.IH"(1)) auto
  have b: "parse_members m (stringify_members (kv # kvs) @ CHR ''}'' # rest) = Some (kv # kvs, rest)"
    using 12(3,4) n by (intro "12.IH"(2)) auto
  show ?case using n a b by (simp add: quote_def parse_string_escape)
qed

theorem JSON_parse_stringify: "JSON_parse (JSON_stringify v) = Some v"
  using parse_stringify(1) [of v "[]" "2 * length (JSON_stringify v) + 1"]
  by (simp add: JSON_parse_def delimited_def)

lemma JSON_stringify_nonempty: "JSON_stringify v \<noteq> []"
  using stringify_Cons [of v] by auto

section \<open>Properties of the storage adapters\<close>

subsection \<open>No operation raises\<close>

lemma ensureDatabase_open: "database s \<Longrightarrow> ensureDatabase rt s = (True, s)"
  by (simp add: ensureDatabase_def)

lemma ensureDatabase_try_result:
  "ensureDatabase_try rt s =
     (if \<not> (driver s \<or> require_driver rt)
      then (Inl (Error ''better-sqlite3 module is not available''), s)
      else if init_fault rt = Some OpenDatabase
      then (Inl (Error ''unable to open database file''), s\<lparr>driver := True\<rparr>)
      else if init_fault rt = Some PragmaJournalMode
      then (Inl (Error ''pragma journal_mode failed''), s\<lparr>driver := True, database := True\<rparr>)
      else if init_fault rt = Some PragmaForeignKeys
      then (Inl (Error ''pragma foreign_keys failed''), s\<lparr>driver := True, database := True\<rparr>)
      else if init_fault rt = Some CreateSchema
      then (Inl (Error ''exec schema failed''), s\<lparr>driver := True, database := True\<rparr>)
      else if init_fault rt = Some PrepareStatements
      then (Inl (Error ''prepare failed''), s\<lparr>driver := True, database := True\<rparr>)
      else (Inr (), s\<lparr>driver := True, database := True, statements := True, initialized := True\<rparr>))"
  unfolding ensureDatabase_try_def loadDriver_def
  by (cases "driver s"; cases "require_driver rt") (simp_all add: Let_def)

lemma ensureDatabase_succeeds:
  "\<not> database s \<Longrightarrow> init_ok rt s \<Longrightarrow>
   ensureDatabase rt s =
     (True, s\<lparr>driver := True, database := True, statements := True, initialized := True\<rparr>)"
  by (simp add: ensureDatabase_def ensureDatabase_try_result init_ok_def)

lemma ensureDatabase_fails:
  assumes "\<not> database s" "\<not> init_ok rt s"
  shows "ensureDatabase rt s = (False, init_failed rt s)"
proof (cases "driver s \<or> require_driver rt")
  case False
  then have "s\<lparr>driver := False\<rparr> = s" by simp
  then show ?thesis using assms False
    by (simp add: ensureDatabase_def ensureDatabase_try_result init_failed_def init_error_def)
next
  case True
  then obtain step where "init_fault rt = Some step"
    using assms(2) by (auto simp: init_ok_def)
  then show ?thesis using assms True
    by (cases step)
      (simp_all add: ensureDatabase_def ensureDatabase_try_result init_failed_def init_error_def)
qed

lemma init_failed_simps [simp]:
  "database (init_failed rt s) = False"
  "statements (init_failed rt s) = False"
  "disk (init_failed rt s) = disk s"
  "driver (init_failed rt s) = (driver s \<or> require_driver rt)"
  "initialized (init_failed rt s) = initialized s"
  by (simp_all add: init_failed_def)

lemma init_ok_init_failed [simp]: "init_ok rt (init_failed rt s) = init_ok rt s"
  by (auto simp: init_ok_def)

lemma ensureDatabase_eq:
  "ensureDatabase rt s =
     (if database s then (True, s)
      else if init_ok rt s
      then (True, s\<lparr>driver := True, database := True, statements := True, initialized := True\<rparr>)
      else (False, init_failed rt s))"
  by (simp add: ensureDatabase_open ensureDatabase_succeeds ensureDatabase_fails)

lemma ensureDatabase_fst: "fst (ensureDatabase rt s) = database (snd (ensureDatabase rt s))"
  by (simp add: ensureDatabase_eq)

lemma ensureDatabase_disk: "disk (snd (ensureDatabase rt s)) = disk s"
  by (simp add: ensureDatabase_eq)



lemma SQLite_never_raises:
  "fst (SQLiteChatMemory_initialize rt s) = Inr ()"
  "fst (SQLiteChatMemory_clearConversation rt cid s) = Inr ()"
  "fst (SQLiteChatMemory_replaceConversation rt cid rows s) = Inr ()"
  "\<exists>found. fst (SQLiteChatMemory_getMessages rt cid s) = Inr found"
  "\<exists>b. fst (SQLiteChatMemory_isAvailable rt s) = Inr b"
  by (simp_all add: SQLiteChatMemory_initialize_def SQLiteChatMemory_clearConversation_def
      SQLiteChatMemory_replaceConversation_def SQLiteChatMemory_getMessages_def
      SQLiteChatMemory_isAvailable_def Let_def split: prod.splits sum.splits)





subsection \<open>Replacing a conversation is atomic\<close>

lemma insert_rows_fault:
  "stmt_fault rt = Some k \<Longrightarrow> j \<le> k \<Longrightarrow> k < j + length rows \<Longrightarrow>
   \<exists>e. insert_rows rt cid now j rows db = Inl e"
proof (induction rows arbitrary: j db)
  case Nil
  then show ?case by simp
next
  case (Cons row rows)
  show ?case
  proof (cases "j = k")
    case True
    then show ?thesis using Cons.prems by (simp add: run_statement_def)
  next
    case False
    then have "Suc j \<le> k" "k < Suc j + length rows" using Cons.prems by auto
    then have "\<And>db'. \<exists>e. insert_rows rt cid now (Suc j) rows db' = Inl e"
      using Cons.IH Cons.prems(1) by blast
    then show ?thesis by (auto split: sum.splits)
  qed
qed

lemma replace_handler_fault:
  assumes "stmt_fault rt = Some k" "k < 2 + length rows"
  shows "\<exists>e. replace_handler rt cid now rows db = Inl e"
proof (cases "k < 2")
  case True
  then have "k = 0 \<or> k = 1" by auto
  then show ?thesis using assms(1)
    by (auto simp: replace_handler_def run_statement_def split: sum.splits)
next
  case False
  then have "\<And>db'. \<exists>e. insert_rows rt cid now 2 rows db' = Inl e"
    using insert_rows_fault [OF assms(1), of 2 rows] assms(2) by auto
  then show ?thesis
    by (auto simp: replace_handler_def split: sum.splits)
qed

lemma getMessages_ignores_log:
  "fst (SQLiteChatMemory_getMessages rt cid (s\<lparr>sqlite_log := l\<rparr>))
   = fst (SQLiteChatMemory_getMessages rt cid s)"
  by (simp add: SQLiteChatMemory_getMessages_def ensureDatabase_eq init_ok_def init_failed_def
      Let_def split: sum.splits)

text \<open>
  Claim C6. \<open>replaceConversation\<close> is all-or-nothing. When any step of the replace
  throws (statement 0 upserts the conversation, statement 1 deletes the old rows,
  statement \<open>2 + i\<close> inserts row \<open>i\<close>), the store is what it was before the
  call, and every later \<open>getMessages\<close>, for any conversation and in any runtime,
  returns what it would have returned had the call only acquired the handle: never a
  partly written row set.
\<close>

theorem replaceConversation_all_or_nothing:
  assumes "stmt_fault rt = Some k" and "k < 2 + length rows"
  shows "disk (snd (SQLiteChatMemory_replaceConversation rt cid rows s)) = disk s
    \<and> (\<forall>rt' cid'.
         fst (SQLiteChatMemory_getMessages rt' cid'
               (snd (SQLiteChatMemory_replaceConversation rt cid rows s)))
         = fst (SQLiteChatMemory_getMessages rt' cid' (snd (ensureDatabase rt s))))"
proof -
  obtain b s1 where e: "ensureDatabase rt s = (b, s1)" by (cases "ensureDatabase rt s")
  have d: "disk s1 = disk s" using ensureDatabase_disk [of rt s] e by simp
  obtain err where h: "replace_handler rt cid (clock rt) rows (disk s1) = Inl err"
    using replace_handler_fault [OF assms] by blast
  have "\<exists>l. snd (SQLiteChatMemory_replaceConversation rt cid rows s) = s1\<lparr>sqlite_log := l\<rparr>"
  proof (cases "\<not> b \<or> \<not> statements s1")
    case True
    then have "snd (SQLiteChatMemory_replaceConversation rt cid rows s) = s1\<lparr>sqlite_log := sqlite_log s1\<rparr>"
      using e by (auto simp: SQLiteChatMemory_replaceConversation_def)
    then show ?thesis by blast
  next
    case False
    then have "snd (SQLiteChatMemory_replaceConversation rt cid rows s)
        = s1\<lparr>sqlite_log := sqlite_log s1 @
                      [(''SQLiteChatMemory'',
                        ''Failed to persist chat history: '' @ error_message err, ''error'')]\<rparr>"
      using e h by (simp add: SQLiteChatMemory_replaceConversation_def transaction_def)
    then show ?thesis by blast
  qed
  then obtain l where "snd (SQLiteChatMemory_replaceConversation rt cid rows s) = s1\<lparr>sqlite_log := l\<rparr>"
    by blast
  then show ?thesis using e d by (simp add: getMessages_ignores_log)
qed

lemmas sqlite_eval =
  SQLiteChatMemory_replaceConversation_def SQLiteChatMemory_getMessages_def
  SQLiteChatMemory_clearConversation_def
  ensureDatabase_def ensureDatabase_try_def loadDriver_def new_SQLiteChatMemory_def
  transaction_def replace_handler_def clear_handler_def run_statement_def run_query_def
  upsertConversation_def deleteMessages_def insertMessage_def deleteConversation_def
  selectMessages_def deserializeRow_def metadataJson_def empty_database_def
  node_runtime_def browser_runtime_def plain_row_def Let_def

lemma two_stored_eval:
  "fst (SQLiteChatMemory_getMessages node_runtime ''persist-case'' two_stored)
     = Inr [plain_row SYSTEM ''System prompt'' 0, plain_row HUMAN ''Hello world'' 1]"
  by (simp add: two_stored_def sqlite_eval)

text \<open>
  The instance: two rows are stored, and a replace by three rows fails at its second
  insert; the two rows are read back.
\<close>

theorem replaceConversation_all_or_nothing_witness:
  "stmt_fault (node_runtime\<lparr>stmt_fault := Some 3\<rparr>) = Some 3
   \<and> 3 < 2 + length [plain_row HUMAN ''a'' 0, plain_row AI ''b'' 1, plain_row HUMAN ''c'' 2]
   \<and> fst (SQLiteChatMemory_getMessages node_runtime ''persist-case''
        (snd (SQLiteChatMemory_replaceConversation (node_runtime\<lparr>stmt_fault := Some 3\<rparr>)
               ''persist-case''
               [plain_row HUMAN ''a'' 0, plain_row AI ''b'' 1, plain_row HUMAN ''c'' 2]
               two_stored)))
     = Inr [plain_row SYSTEM ''System prompt'' 0, plain_row HUMAN ''Hello world'' 1]"
proof -
  let ?rt = "node_runtime\<lparr>stmt_fault := Some 3\<rparr>"
  let ?rows = "[plain_row HUMAN ''a'' 0, plain_row AI ''b'' 1, plain_row HUMAN ''c'' 2]"
  have f: "stmt_fault ?rt = Some 3" by simp
  have k: "3 < 2 + length ?rows" by simp
  have o: "snd (ensureDatabase ?rt two_stored) = two_stored"
    by (simp add: two_stored_def sqlite_eval)
  show ?thesis
    using replaceConversation_all_or_nothing [OF f k, of "''persist-case''" two_stored]
      o two_stored_eval f k
    by simp
qed

section \<open>Properties of the manager\<close>

subsection \<open>Restoring, and the manager after construction\<close>

lemma restore_loop_memory:
  "memory (snd (restore_loop X rows s)) = memory s
   \<and> conversationId (snd (restore_loop X rows s)) = conversationId s
   \<and> manager_log (snd (restore_loop X rows s)) = manager_log s"
  by (induction rows arbitrary: s) (auto split: sum.splits)

lemma getMessages_stored_state:
  "stored_state (snd (memory_getMessages rt cid a)) = stored_state a"
proof (cases a)
  case (SQLite s)
  then show ?thesis using ensureDatabase_disk [of rt s]
    by (auto simp: stored_state_def SQLiteChatMemory_getMessages_def Let_def
        split: prod.splits sum.splits)
next
  case (InMemory m)
  then show ?thesis
    by (simp add: stored_state_def InMemoryChatMemory_getMessages_def split: option.splits)
qed

text \<open>
  Claim C4. Replaying the stored rows on construction writes nothing back: whatever the
  rows, the runtime and the collaborators, the adapter that \<open>restoreFromMemory\<close>
  leaves is the adapter as the one call of \<open>getMessages\<close> left it (no
  \<open>replaceConversation\<close>, no \<open>clearConversation\<close>), and what it stores is what
  it stored before.
\<close>

theorem restore_writes_nothing:
  "memory (restoreFromMemory X rt s) = snd (memory_getMessages rt (conversationId s) (memory s))
   \<and> stored_state (memory (restoreFromMemory X rt s)) = stored_state (memory s)"
proof -
  obtain r m where g: "memory_getMessages rt (conversationId s) (memory s) = (r, m)"
    by (cases "memory_getMessages rt (conversationId s) (memory s)")
  have "memory (snd (restoreFromMemory_try X rt s)) = m"
    using g restore_loop_memory [of X _ "s\<lparr>memory := m, restoring := True\<rparr>"]
    by (auto simp: restoreFromMemory_try_def split: sum.splits)
  then have "memory (restoreFromMemory X rt s) = m"
    by (auto simp: restoreFromMemory_def split: prod.splits sum.splits)
  then show ?thesis using g getMessages_stored_state [of rt "conversationId s" "memory s"]
    by simp
qed

text \<open>
  Claim C10. \<open>removeLast\<close> on a manager whose pipeline is empty returns false and
  writes nothing: the adapter is untouched, and nothing is logged. The inherited
  \<open>removeLast\<close> is a parameter; all that is asked of it is that it reports false on
  an empty pipeline.
\<close>

theorem removeLast_nothing_removed:
  assumes "super_getMessages X (pipeline s) = []"
    and "\<forall>p. super_getMessages X p = [] \<longrightarrow> \<not> fst (super_removeLast X p)"
  shows "fst (removeLast X rt s) = False
    \<and> memory (snd (removeLast X rt s)) = memory s
    \<and> manager_log (snd (removeLast X rt s)) = manager_log s"
proof -
  have "\<not> fst (super_removeLast X (pipeline s))" using assms by blast
  then obtain p where "super_removeLast X (pipeline s) = (False, p)"
    by (cases "super_removeLast X (pipeline s)") auto
  then show ?thesis
    by (simp add: removeLast_def)
qed

text \<open>
  The instance: the list pipeline of the examples, empty, over the transient backend.
\<close>

theorem removeLast_nothing_removed_witness:
  "super_getMessages list_pipeline (pipeline idle_manager) = []
   \<and> fst (removeLast list_pipeline node_runtime idle_manager) = False
   \<and> memory (snd (removeLast list_pipeline node_runtime idle_manager)) = memory idle_manager"
proof -
  have e: "super_getMessages list_pipeline (pipeline idle_manager) = []"
    by (simp add: list_pipeline_def idle_manager_def)
  have b: "\<forall>p. super_getMessages list_pipeline p = [] \<longrightarrow> \<not> fst (super_removeLast list_pipeline p)"
    by (simp add: list_pipeline_def list_removeLast_def)
  show ?thesis
    using removeLast_nothing_removed [OF e b, of node_runtime] e by simp
qed

lemma storage_adapter_never_raises_aux:
  "fst (memory_initialize rt a) = Inr ()"
  "fst (memory_clearConversation rt cid a) = Inr ()"
  "fst (memory_replaceConversation rt cid rows a) = Inr ()"
  "\<exists>found. fst (memory_getMessages rt cid a) = Inr found"
  "\<exists>b. fst (memory_isAvailable rt a) = Inr b"
proof -
  show "fst (memory_initialize rt a) = Inr ()"
    using SQLite_never_raises(1) by (cases a) (simp_all add: InMemoryChatMemory_initialize_def)
  show "fst (memory_clearConversation rt cid a) = Inr ()"
    using SQLite_never_raises(2)
    by (cases a) (simp_all add: InMemoryChatMemory_clearConversation_def)
  show "fst (memory_replaceConversation rt cid rows a) = Inr ()"
    using SQLite_never_raises(3)
    by (cases a) (simp_all add: InMemoryChatMemory_replaceConversation_def)
  show "\<exists>found. fst (memory_getMessages rt cid a) = Inr found"
    using SQLite_never_raises(4)
    by (cases a) (auto simp add: InMemoryChatMemory_getMessages_def split: option.splits)
  show "\<exists>b. fst (memory_isAvailable rt a) = Inr b"
    using SQLite_never_raises(5)
    by (cases a) (auto simp add: InMemoryChatMemory_isAvailable_def)
qed

lemma memory_never_raises:
  "\<exists>a'. memory_initialize rt a = (Inr (), a')"
  "\<exists>b a'. memory_isAvailable rt a = (Inr b, a')"
  "\<exists>a'. memory_replaceConversation rt cid rows a = (Inr (), a')"
  "\<exists>a'. memory_clearConversation rt cid a = (Inr (), a')"
  "\<exists>found a'. memory_getMessages rt cid a = (Inr found, a')"
proof -
  show "\<exists>a'. memory_initialize rt a = (Inr (), a')"
    using storage_adapter_never_raises_aux(1) [of rt a]
    by (cases "memory_initialize rt a") auto
  show "\<exists>b a'. memory_isAvailable rt a = (Inr b, a')"
    using storage_adapter_never_raises_aux(5) [of rt a]
    by (cases "memory_isAvailable rt a") auto
  show "\<exists>a'. memory_replaceConversation rt cid rows a = (Inr (), a')"
    using storage_adapter_never_raises_aux(3) [of rt cid rows a]
    by (cases "memory_replaceConversation rt cid rows a") auto
  show "\<exists>a'. memory_clearConversation rt cid a = (Inr (), a')"
    using storage_adapter_never_raises_aux(2) [of rt cid a]
    by (cases "memory_clearConversation rt cid a") auto
  show "\<exists>found a'. memory_getMessages rt cid a = (Inr found, a')"
    using storage_adapter_never_raises_aux(4) [of rt cid a]
    by (cases "memory_getMessages rt cid a") auto
qed

lemma createFallbackMemory_returns: "createFallbackMemory = Inr (InMemory new_InMemoryChatMemory)"
  by (simp add: createFallbackMemory_def InMemoryChatMemory_initialize_def)

lemma use_if_available_returns: "\<exists>m l. use_if_available rt a entries complaint = Inr (m, l)"
proof -
  obtain b a' where "memory_isAvailable rt a = (Inr b, a')"
    using memory_never_raises(2) by blast
  then show ?thesis
    by (simp add: use_if_available_def createFallbackMemory_returns)
qed

lemma initializeMemory_returns: "\<exists>m l. initializeMemory rt options = Inr (m, l)"
proof (cases "opt_memory options")
  case None
  obtain a' where "memory_initialize rt (SQLite (new_SQLiteChatMemory rt (opt_dbPath options) None))
      = (Inr (), a')"
    using memory_never_raises(1) by blast
  then show ?thesis using None use_if_available_returns
    by (simp add: initializeMemory_def)
next
  case (Some supplied)
  obtain a' where "memory_initialize rt supplied = (Inr (), a')"
    using memory_never_raises(1) by blast
  then show ?thesis using Some use_if_available_returns
    by (simp add: initializeMemory_def)
qed

lemma restoreFromMemory_live: "\<not> restoring (restoreFromMemory X rt s)"
  by (simp add: restoreFromMemory_def split: prod.splits sum.splits)

lemma persistMessages_memory:
  "memory (persistMessages X rt s) =
     snd (memory_replaceConversation rt (conversationId s)
            (serialize_all X (clock rt) (super_getMessages X (pipeline s))) (memory s))"
  by (simp add: persistMessages_def split: prod.splits sum.splits)

lemma live_operations:
  assumes "\<not> restoring s"
  shows "memory (add X rt message position s) =
        snd (memory_replaceConversation rt (conversationId s)
               (serialize_all X (clock rt)
                  (super_getMessages X (super_add X message position (pipeline s))))
               (memory s))"
    and "memory (setMaxTokens X rt newMaxTokens s) =
        snd (memory_replaceConversation rt (conversationId s)
               (serialize_all X (clock rt)
                  (super_getMessages X (super_setMaxTokens X newMaxTokens (pipeline s))))
               (memory s))"
    and "memory (clear X rt s) = snd (memory_clearConversation rt (conversationId s) (memory s))"
    and "memory (snd (removeLast X rt s)) =
        (if fst (super_removeLast X (pipeline s))
         then snd (memory_replaceConversation rt (conversationId s)
                     (serialize_all X (clock rt)
                        (super_getMessages X (snd (super_removeLast X (pipeline s)))))
                     (memory s))
         else memory s)"
proof -
  show "memory (add X rt message position s) =
        snd (memory_replaceConversation rt (conversationId s)
               (serialize_all X (clock rt)
                  (super_getMessages X (super_add X message position (pipeline s))))
               (memory s))"
    using assms by (simp add: add_def persistMessages_memory)
  show "memory (setMaxTokens X rt newMaxTokens s) =
        snd (memory_replaceConversation rt (conversationId s)
               (serialize_all X (clock rt)
                  (super_getMessages X (super_setMaxTokens X newMaxTokens (pipeline s))))
               (memory s))"
    using assms by (simp add: setMaxTokens_def persistMessages_memory)
  show "memory (clear X rt s) = snd (memory_clearConversation rt (conversationId s) (memory s))"
    using assms by (simp add: clear_def Let_def split: prod.splits sum.splits)
  show "memory (snd (removeLast X rt s)) =
        (if fst (super_removeLast X (pipeline s))
         then snd (memory_replaceConversation rt (conversationId s)
                     (serialize_all X (clock rt)
                        (super_getMessages X (snd (super_removeLast X (pipeline s)))))
                     (memory s))
         else memory s)"
    using assms
    by (cases "super_removeLast X (pipeline s)") (simp add: removeLast_def persistMessages_memory)
qed

text \<open>
  Claim C9. The constructor returns, and the manager it returns is not restoring,
  whether the restore found no rows, replayed them all or stopped at a throw. So every
  later mutation has its effect on the adapter: \<open>add\<close> and \<open>setMaxTokens\<close>
  hand the serialized list to \<open>replaceConversation\<close>, \<open>clear\<close> calls
  \<open>clearConversation\<close>, and \<open>removeLast\<close> hands the serialized list to
  \<open>replaceConversation\<close> when a message was removed.
\<close>

theorem constructor_leaves_live:
  "\<exists>s. new_PersistentMessageManager X rt options = Inr s
     \<and> restoring s = False
     \<and> (\<forall>rt' message position newMaxTokens.
          memory (add X rt' message position s) =
            snd (memory_replaceConversation rt' (conversationId s)
                   (serialize_all X (clock rt')
                      (super_getMessages X (super_add X message position (pipeline s))))
                   (memory s))
          \<and> memory (setMaxTokens X rt' newMaxTokens s) =
            snd (memory_replaceConversation rt' (conversationId s)
                   (serialize_all X (clock rt')
                      (super_getMessages X (super_setMaxTokens X newMaxTokens (pipeline s))))
                   (memory s))
          \<and> memory (clear X rt' s) =
            snd (memory_clearConversation rt' (conversationId s) (memory s))
          \<and> memory (snd (removeLast X rt' s)) =
            (if fst (super_removeLast X (pipeline s))
             then snd (memory_replaceConversation rt' (conversationId s)
                         (serialize_all X (clock rt')
                            (super_getMessages X (snd (super_removeLast X (pipeline s)))))
                         (memory s))
             else memory s))"
proof -
  obtain m l where i: "initializeMemory rt options = Inr (m, l)"
    using initializeMemory_returns by blast
  then obtain s where s: "new_PersistentMessageManager X rt options = Inr s"
    and live: "\<not> restoring s"
    by (simp add: new_PersistentMessageManager_def restoreFromMemory_live)
  show ?thesis
    using s live live_operations [OF live] by simp
qed

subsection \<open>Every mutation rewrites the rows\<close>

lemma copy_row_well_formed: "well_formed_row r \<Longrightarrow> copy_row r = r"
  by (cases "metadata r"; cases "the (metadata r)")
    (auto simp: well_formed_row_def copy_row_def)

lemma InMemory_replace_then_get:
  assumes "\<forall>r \<in> set rows. well_formed_row r"
  shows "fst (InMemoryChatMemory_getMessages cid
               (snd (InMemoryChatMemory_replaceConversation cid rows m))) = Inr rows"
proof -
  have "map copy_row rows = rows" using assms by (simp add: copy_row_well_formed map_idI)
  then show ?thesis
    by (simp add: InMemoryChatMemory_getMessages_def InMemoryChatMemory_replaceConversation_def)
qed

lemma insert_rows_healthy:
  "stmt_fault rt = None \<Longrightarrow> cid \<in> conv_id ` set (conversations db) \<Longrightarrow>
   insert_rows rt cid now k rows db =
     Inr (db\<lparr>chat_messages := chat_messages db @ stored_as cid now (autoincrement db) rows,
             autoincrement := autoincrement db + length rows\<rparr>)"
proof (induction rows arbitrary: db k)
  case Nil
  then show ?case by simp
next
  case (Cons row rows)
  let ?db' = "db\<lparr>chat_messages := chat_messages db @
                  [\<lparr>col_id = Suc (autoincrement db), col_conversation_id = cid, col_role = role row,
                    col_content = content row, col_metadata = metadataJson row,
                    col_sequence = sequence row,
                    col_created_at = (case createdAt row of Some t \<Rightarrow> t | None \<Rightarrow> now)\<rparr>],
                autoincrement := Suc (autoincrement db)\<rparr>"
  have step: "run_statement rt k
             (insertMessage cid (role row) (content row) (metadataJson row) (sequence row)
                (case createdAt row of Some t \<Rightarrow> t | None \<Rightarrow> now)) db = Inr ?db'"
    using Cons.prems by (simp add: run_statement_def insertMessage_def)
  have "cid \<in> conv_id ` set (conversations ?db')" using Cons.prems by simp
  then have "insert_rows rt cid now (Suc k) rows ?db' =
     Inr (?db'\<lparr>chat_messages := chat_messages ?db' @ stored_as cid now (autoincrement ?db') rows,
             autoincrement := autoincrement ?db' + length rows\<rparr>)"
    using Cons.IH Cons.prems(1) by blast
  then show ?case using step by simp
qed

lemma stored_as_conversation:
  "\<forall>r \<in> set (stored_as cid now n rows). col_conversation_id r = cid"
  by (induction rows arbitrary: n) auto

lemma stored_as_sequence: "map col_sequence (stored_as cid now n rows) = map sequence rows"
  by (induction rows arbitrary: n) auto

lemma deserializeRow_stored_as:
  "\<forall>r \<in> set rows. well_formed_row r \<Longrightarrow> map deserializeRow (stored_as cid now n rows) = rows"
proof (induction rows arbitrary: n)
  case Nil
  then show ?case by simp
next
  case (Cons row rows)
  have wf: "well_formed_row row" using Cons.prems by simp
  then obtain t where t: "createdAt row = Some t" by (auto simp: well_formed_row_def)
  have md: "(case metadataJson row of
           Some metadataRaw \<Rightarrow>
             if length metadataRaw > 0
             then (case JSON_parse metadataRaw of Some m \<Rightarrow> Some m | None \<Rightarrow> None)
             else None
         | None \<Rightarrow> None) = metadata row"
  proof (cases "metadata row")
    case None
    then show ?thesis by (simp add: metadataJson_def)
  next
    case (Some m)
    then obtain kvs where "m = JObject kvs"
      using wf by (cases m) (auto simp: well_formed_row_def)
    then show ?thesis using Some
      by (simp add: metadataJson_def JSON_parse_stringify JSON_stringify_nonempty
          del: JSON_stringify.simps)
  qed
  have "deserializeRow \<lparr>col_id = Suc n, col_conversation_id = cid, col_role = role row,
      col_content = content row, col_metadata = metadataJson row,
      col_sequence = sequence row,
      col_created_at = (case createdAt row of Some t \<Rightarrow> t | None \<Rightarrow> now)\<rparr> = row"
    using t md by (simp add: deserializeRow_def)
  then show ?case using Cons by simp
qed

lemma upsert_ids:
  "map conv_id (map (\<lambda>c. if conv_id c = cid then c\<lparr>conv_updated_at := u\<rparr> else c) cs)
     = map conv_id cs"
  by (induction cs) auto

lemma upsertConversation_result:
  "\<exists>db1. upsertConversation cid created updated db = Inr db1
     \<and> cid \<in> conv_id ` set (conversations db1)
     \<and> chat_messages db1 = chat_messages db
     \<and> autoincrement db1 = autoincrement db"
proof (cases "cid \<in> conv_id ` set (conversations db)")
  case True
  have "conv_id ` set (map (\<lambda>c. if conv_id c = cid then c\<lparr>conv_updated_at := updated\<rparr> else c)
             (conversations db)) = conv_id ` set (conversations db)"
    using upsert_ids [of cid updated "conversations db"] by (metis set_map)
  then show ?thesis using True by (simp add: upsertConversation_def)
next
  case False
  then show ?thesis by (simp add: upsertConversation_def)
qed

lemma replace_handler_healthy:
  assumes "stmt_fault rt = None"
  shows "\<exists>db'. replace_handler rt cid now rows db = Inr db'
     \<and> filter (\<lambda>r. col_conversation_id r = cid) (chat_messages db')
         = stored_as cid now (autoincrement db) rows"
proof -
  obtain db1 where u: "upsertConversation cid now now db = Inr db1"
    and c1: "cid \<in> conv_id ` set (conversations db1)"
    and m1: "chat_messages db1 = chat_messages db"
    and a1: "autoincrement db1 = autoincrement db"
    using upsertConversation_result [of cid now now db] by blast
  let ?db2 = "db1\<lparr>chat_messages := filter (\<lambda>r. col_conversation_id r \<noteq> cid) (chat_messages db1)\<rparr>"
  have c2: "cid \<in> conv_id ` set (conversations ?db2)" using c1 by simp
  have i: "insert_rows rt cid now 2 rows ?db2 =
     Inr (?db2\<lparr>chat_messages := chat_messages ?db2 @ stored_as cid now (autoincrement ?db2) rows,
             autoincrement := autoincrement ?db2 + length rows\<rparr>)"
    using insert_rows_healthy [OF assms c2] by blast
  have h: "replace_handler rt cid now rows db =
     Inr (?db2\<lparr>chat_messages := chat_messages ?db2 @ stored_as cid now (autoincrement ?db2) rows,
             autoincrement := autoincrement ?db2 + length rows\<rparr>)"
    using assms u i by (simp add: replace_handler_def run_statement_def deleteMessages_def)
  have "filter (\<lambda>r. col_conversation_id r = cid) (stored_as cid now (autoincrement db) rows)
      = stored_as cid now (autoincrement db) rows"
    using stored_as_conversation [of cid now "autoincrement db" rows] by (simp add: filter_id_conv)
  moreover have "filter (\<lambda>r. col_conversation_id r = cid)
      (filter (\<lambda>r. col_conversation_id r \<noteq> cid) (chat_messages db1)) = []"
    by (simp add: filter_empty_conv)
  ultimately show ?thesis using h a1 by simp
qed

lemma ensureDatabase_healthy:
  assumes "healthy rt" "database s \<longrightarrow> statements s"
  shows "\<exists>s1. ensureDatabase rt s = (True, s1) \<and> database s1 \<and> statements s1 \<and> disk s1 = disk s"
  using assms by (auto simp: ensureDatabase_eq healthy_def init_ok_def)

lemma SQLite_replace_then_get:
  assumes "healthy rt" "healthy rt'" "database s \<longrightarrow> statements s"
    and "\<forall>r \<in> set rows. well_formed_row r" "sorted (map sequence rows)"
  shows "fst (SQLiteChatMemory_getMessages rt' cid
               (snd (SQLiteChatMemory_replaceConversation rt cid rows s))) = Inr rows
     \<and> database (snd (SQLiteChatMemory_replaceConversation rt cid rows s))
     \<and> statements (snd (SQLiteChatMemory_replaceConversation rt cid rows s))"
proof -
  obtain s1 where e: "ensureDatabase rt s = (True, s1)" and o: "database s1" "statements s1"
    using ensureDatabase_healthy [OF assms(1,3)] by blast
  have f: "stmt_fault rt = None" "stmt_fault rt' = None" using assms(1,2) by (auto simp: healthy_def)
  obtain db' where h: "replace_handler rt cid (clock rt) rows (disk s1) = Inr db'"
    and sel: "filter (\<lambda>r. col_conversation_id r = cid) (chat_messages db')
         = stored_as cid (clock rt) (autoincrement (disk s1)) rows"
    using replace_handler_healthy [OF f(1)] by blast
  have r: "snd (SQLiteChatMemory_replaceConversation rt cid rows s) = s1\<lparr>disk := db'\<rparr>"
    using e o h by (simp add: SQLiteChatMemory_replaceConversation_def transaction_def)
  have "sorted (map col_sequence (stored_as cid (clock rt) (autoincrement (disk s1)) rows))"
    using assms(5) by (simp add: stored_as_sequence)
  then have "selectMessages cid db' = stored_as cid (clock rt) (autoincrement (disk s1)) rows"
    using sel by (simp add: selectMessages_def sort_key_id_if_sorted)
  then have "fst (SQLiteChatMemory_getMessages rt' cid (s1\<lparr>disk := db'\<rparr>)) = Inr rows"
    using o f(2) assms(4)
    by (simp add: SQLiteChatMemory_getMessages_def ensureDatabase_open run_query_def
        deserializeRow_stored_as)
  then show ?thesis using r o by simp
qed

lemma memory_replace_then_get:
  assumes "healthy rt" "healthy rt'" "adapter_ok a"
    and "\<forall>r \<in> set rows. well_formed_row r" "sorted (map sequence rows)"
  shows "fst (memory_getMessages rt' cid (snd (memory_replaceConversation rt cid rows a))) = Inr rows
     \<and> adapter_ok (snd (memory_replaceConversation rt cid rows a))"
proof (cases a)
  case (SQLite s)
  then show ?thesis
    using SQLite_replace_then_get [OF assms(1,2) _ assms(4,5), of s cid] assms(3)
    by (simp add: adapter_ok_def)
next
  case (InMemory m)
  then show ?thesis
    using InMemory_replace_then_get [OF assms(4), of cid m] by (simp add: adapter_ok_def)
qed

lemma extractMetadata_object:
  "extractMetadata message flag = None \<or> (\<exists>kvs. extractMetadata message flag = Some (JObject kvs))"
  by (simp add: extractMetadata_def Let_def)

lemma serializeMessage_well_formed: "well_formed_row (serializeMessage X now message sq)"
  using extractMetadata_object [of message "snd (normalizeContent message)"]
  by (auto simp: well_formed_row_def serializeMessage_def Let_def)

lemma serialize_all_well_formed: "\<forall>r \<in> set (serialize_all X now ms). well_formed_row r"
  by (auto simp: serialize_all_def serializeMessage_well_formed)

lemma serialize_all_length [simp]: "length (serialize_all X now ms) = length ms"
  by (simp add: serialize_all_def)

lemma serialize_all_nth:
  "i < length ms \<Longrightarrow> serialize_all X now ms ! i = serializeMessage X now (ms ! i) (int i)"
  by (simp add: serialize_all_def nth_enumerate_eq)

lemma serialize_all_sequence: "map sequence (serialize_all X now ms) = map int [0..<length ms]"
  by (rule nth_equalityI) (simp_all add: serialize_all_nth serializeMessage_def Let_def)

lemma sorted_map_int_upt: "sorted (map int [0..<n])"
  by (simp add: sorted_map strict_sorted_iff sorted_wrt_iff_nth_less)

lemma persist_then_read:
  assumes "healthy rt" "healthy rt'" "adapter_ok (memory s)"
  shows "rewritten X rt rt' (persistMessages X rt s) \<and> adapter_ok (memory (persistMessages X rt s))"
proof -
  let ?rows = "serialize_all X (clock rt) (super_getMessages X (pipeline s))"
  have srt: "sorted (map sequence ?rows)"
    by (simp add: serialize_all_sequence sorted_map_int_upt)
  have "fst (memory_getMessages rt' (conversationId s)
          (snd (memory_replaceConversation rt (conversationId s) ?rows (memory s)))) = Inr ?rows
     \<and> adapter_ok (snd (memory_replaceConversation rt (conversationId s) ?rows (memory s)))"
    using memory_replace_then_get [OF assms serialize_all_well_formed srt] by blast
  moreover have "pipeline (persistMessages X rt s) = pipeline s"
    "conversationId (persistMessages X rt s) = conversationId s"
    by (simp_all add: persistMessages_def split: prod.splits sum.splits)
  ultimately show ?thesis
    by (simp add: rewritten_def persistMessages_memory serialize_all_sequence)
qed

text \<open>
  Claim C2. Outside restoring mode, over an adapter that works (the transient backend,
  or the durable one in a runtime where the driver loads and no statement fails),
  \<open>add\<close>, \<open>setMaxTokens\<close> and a \<open>removeLast\<close> that removed a message
  each rewrite the conversation's rows in full: what \<open>getMessages\<close> then reads is
  the serialization of the current in-memory list, as many rows as messages, row
  \<open>i\<close> for the message at position \<open>i\<close>, with the sequences
  \<open>0..N-1\<close>. This holds for every pipeline the manager may inherit from.
\<close>

theorem mutation_rewrites_rows:
  assumes "\<not> restoring s" "healthy rt" "healthy rt'" "adapter_ok (memory s)"
  shows "rewritten X rt rt' (add X rt message position s)
     \<and> rewritten X rt rt' (setMaxTokens X rt newMaxTokens s)
     \<and> (fst (removeLast X rt s) \<longrightarrow> rewritten X rt rt' (snd (removeLast X rt s)))"
proof -
  have a: "add X rt message position s
      = persistMessages X rt (s\<lparr>pipeline := super_add X message position (pipeline s)\<rparr>)"
    using assms(1) by (simp add: add_def)
  have b: "setMaxTokens X rt newMaxTokens s
      = persistMessages X rt (s\<lparr>pipeline := super_setMaxTokens X newMaxTokens (pipeline s)\<rparr>)"
    using assms(1) by (simp add: setMaxTokens_def)
  have c: "fst (removeLast X rt s) \<longrightarrow> snd (removeLast X rt s)
      = persistMessages X rt (s\<lparr>pipeline := snd (super_removeLast X (pipeline s))\<rparr>)"
    using assms(1) by (cases "super_removeLast X (pipeline s)") (simp add: removeLast_def Let_def)
  have p: "rewritten X rt rt' (persistMessages X rt (s\<lparr>pipeline := q\<rparr>))" for q
    using persist_then_read [OF assms(2,3), of "s\<lparr>pipeline := q\<rparr>" X] assms(4) by simp
  show ?thesis
    using a b c p by simp
qed

lemmas manager_eval =
  add_def removeLast_def setMaxTokens_def clear_def persistMessages_def serialize_all_def
  serializeMessage_def normalizeContent_def extractMetadata_def has_keys_def
  list_pipeline_def list_add_def list_removeLast_def
  new_PersistentMessageManager_def resolved_conversationId_def initializeMemory_def
  use_if_available_def
  createFallbackMemory_def restoreFromMemory_def restoreFromMemory_try_def
  SQLiteChatMemory_initialize_def SQLiteChatMemory_isAvailable_def
  InMemoryChatMemory_initialize_def InMemoryChatMemory_isAvailable_def
  InMemoryChatMemory_replaceConversation_def InMemoryChatMemory_getMessages_def
  InMemoryChatMemory_clearConversation_def new_InMemoryChatMemory_def copy_row_def
  resolveDatabasePath_def given_def trim_def white_space_def
  SYSTEM_def HUMAN_def AI_def TOOL_def BROWSER_STATE_def TODO_LIST_def

lemma persist_case_eval:
  "persist_case =
     \<lparr>pipeline = \<lparr>messages = [], maxTokens = None\<rparr>,
      memory = SQLite \<lparr>dbPath = ''/tmp/persist-case.sqlite'', journalMode = ''WAL'',
                       database = True, statements = True, initialized = True, driver = True,
                       disk = empty_database, sqlite_log = []\<rparr>,
      conversationId = ''persist-case'',
      restoring = False,
      manager_log = []\<rparr>"
  by (simp add: persist_case_def manager_eval sqlite_eval)

lemma three_added_facts:
  "\<not> restoring three_added"
  "adapter_ok (memory three_added)"
  "conversationId three_added = ''persist-case''"
  "messages (pipeline three_added) =
     [SystemMessage (JString ''System prompt'') (JObject []),
      HumanMessage (JString ''Hello world'') (JObject []),
      AIMessage (JString ''Hi there!'') (JObject []) [] [] None]"
  by (simp_all add: three_added_def persist_case_eval manager_eval sqlite_eval adapter_ok_def)

lemma persistMessages_frame [simp]:
  "pipeline (persistMessages X rt s) = pipeline s"
  "conversationId (persistMessages X rt s) = conversationId s"
  "restoring (persistMessages X rt s) = restoring s"
  by (simp_all add: persistMessages_def split: prod.splits sum.splits)

lemma add_frame [simp]:
  "pipeline (add X rt message position s) = super_add X message position (pipeline s)"
  "conversationId (add X rt message position s) = conversationId s"
  "restoring (add X rt message position s) = restoring s"
  by (simp_all add: add_def Let_def)

lemma removeLast_frame [simp]:
  "fst (removeLast X rt s) = fst (super_removeLast X (pipeline s))"
  "pipeline (snd (removeLast X rt s)) = snd (super_removeLast X (pipeline s))"
  "conversationId (snd (removeLast X rt s)) = conversationId s"
  "restoring (snd (removeLast X rt s)) = restoring s"
  by (simp_all add: removeLast_def Let_def split: prod.splits)

text \<open>
  The scenario of the specification, on the durable backend with the list pipeline of the
  examples: after a system, a human and an AI message are added, \<open>removeLast\<close>
  leaves exactly two rows, with sequences 0 and 1.
\<close>

theorem mutation_rewrites_rows_witness:
  "\<not> restoring three_added \<and> healthy node_runtime \<and> adapter_ok (memory three_added)
   \<and> fst (removeLast list_pipeline node_runtime three_added)
   \<and> (\<exists>rows. fst (memory_getMessages node_runtime ''persist-case''
                     (memory (snd (removeLast list_pipeline node_runtime three_added)))) = Inr rows
          \<and> length rows = 2 \<and> map sequence rows = [0, 1] \<and> map role rows = [SYSTEM, HUMAN])"
proof -
  let ?s' = "snd (removeLast list_pipeline node_runtime three_added)"
  let ?two = "[SystemMessage (JString ''System prompt'') (JObject []),
      HumanMessage (JString ''Hello world'') (JObject [])]"
  have h: "healthy node_runtime" by (simp add: healthy_def node_runtime_def)
  have r: "fst (removeLast list_pipeline node_runtime three_added)"
    by (simp add: list_pipeline_def list_removeLast_def three_added_facts(4))
  have p: "super_getMessages list_pipeline (pipeline ?s') = ?two"
    by (simp add: list_pipeline_def list_removeLast_def three_added_facts(4))
  have c: "conversationId ?s' = ''persist-case''"
    by (simp add: three_added_facts(3))
  have "rewritten list_pipeline node_runtime node_runtime ?s'"
    using mutation_rewrites_rows [OF three_added_facts(1) h h three_added_facts(2)] r by blast
  then have "fst (memory_getMessages node_runtime ''persist-case'' (memory ?s'))
      = Inr (serialize_all list_pipeline (clock node_runtime) ?two)"
    unfolding rewritten_def p c by simp
  moreover have "map sequence (serialize_all list_pipeline (clock node_runtime) ?two) = [0, 1]"
    by (simp add: serialize_all_def serializeMessage_def Let_def)
  moreover have "map role (serialize_all list_pipeline (clock node_runtime) ?two) = [SYSTEM, HUMAN]"
    by (simp add: serialize_all_def serializeMessage_def list_pipeline_def Let_def)
  ultimately show ?thesis using three_added_facts(1,2) h r by simp
qed

subsection \<open>A restore stops at the first throw\<close>

lemma restore_loop_fail_fast:
  assumes "k < length rows"
    and "map (deserializeMessage X) (take k rows) = map Inr ms"
    and "deserializeMessage X (rows ! k) = Inl e"
  shows "restore_loop X rows s =
     (Inl e, s\<lparr>pipeline := foldl (\<lambda>p message. super_add X message None p) (pipeline s) ms\<rparr>)"
  using assms
proof (induction rows arbitrary: k ms s)
  case Nil
  then show ?case by simp
next
  case (Cons row rows)
  show ?case
  proof (cases k)
    case 0
    then show ?thesis using Cons.prems by simp
  next
    case (Suc j)
    then obtain message ms' where ms: "ms = message # ms'"
      and d: "deserializeMessage X row = Inr message"
      and rest: "map (deserializeMessage X) (take j rows) = map Inr ms'"
      using Cons.prems(2) by (cases ms) auto
    have "restore_loop X rows (s\<lparr>pipeline := super_add X message None (pipeline s)\<rparr>) =
      (Inl e, (s\<lparr>pipeline := super_add X message None (pipeline s)\<rparr>)
         \<lparr>pipeline := foldl (\<lambda>p message. super_add X message None p)
             (pipeline (s\<lparr>pipeline := super_add X message None (pipeline s)\<rparr>)) ms'\<rparr>)"
      using Cons.prems Suc rest by (intro Cons.IH [of j]) auto
    then show ?thesis using d ms by simp
  qed
qed

lemma restoreFromMemory_fail_fast:
  assumes "memory_getMessages rt (conversationId s) (memory s) = (Inr rows, m)"
    and "k < length rows"
    and "map (deserializeMessage X) (take k rows) = map Inr ms"
    and "deserializeMessage X (rows ! k) = Inl e"
  shows "restoreFromMemory X rt s =
     s\<lparr>pipeline := foldl (\<lambda>p message. super_add X message None p) (pipeline s) ms,
       memory := m,
       manager_log := manager_log s @ [warn ''Failed to restore chat history: '' e],
       restoring := False\<rparr>"
proof -
  have "rows \<noteq> []" using assms(2) by auto
  then have "restoreFromMemory_try X rt s =
      restore_loop X rows (s\<lparr>memory := m, restoring := True\<rparr>)"
    using assms(1) by (simp add: restoreFromMemory_try_def)
  then show ?thesis
    using restore_loop_fail_fast [OF assms(2,3,4), of "s\<lparr>memory := m, restoring := True\<rparr>"]
    by (simp add: restoreFromMemory_def)
qed

text \<open>
  Claim C7. The restore is fail-fast. Let the constructor choose adapter \<open>a\<close>, let
  \<open>a\<close> return the rows of the conversation, and let the deserialization of row
  \<open>k\<close> throw after rows \<open>0..k-1\<close> gave the messages \<open>ms\<close>. Then the
  constructor returns; the pipeline it leaves is the new pipeline with exactly
  \<open>ms\<close> appended in order, so rows \<open>k..N-1\<close> were not attempted; the throw is
  logged as a warning; and the manager is not restoring.
\<close>

theorem restore_fail_fast:
  assumes "initializeMemory rt options = Inr (a, entries)"
    and "memory_getMessages rt (resolved_conversationId rt options) a = (Inr rows, m)"
    and "k < length rows"
    and "map (deserializeMessage X) (take k rows) = map Inr ms"
    and "deserializeMessage X (rows ! k) = Inl e"
  shows "\<exists>s. new_PersistentMessageManager X rt options = Inr s
     \<and> pipeline s = foldl (\<lambda>p message. super_add X message None p)
                      (new_super X (opt_maxTokens options)) ms
     \<and> manager_log s = entries @ [warn ''Failed to restore chat history: '' e]
     \<and> restoring s = False
     \<and> memory s = m"
proof -
  let ?s0 = "\<lparr>pipeline = new_super X (opt_maxTokens options), memory = a,
      conversationId = resolved_conversationId rt options, restoring = False,
      manager_log = entries\<rparr>"
  have n: "new_PersistentMessageManager X rt options = Inr (restoreFromMemory X rt ?s0)"
    using assms(1) by (simp add: new_PersistentMessageManager_def resolved_conversationId_def)
  have g: "memory_getMessages rt (conversationId ?s0) (memory ?s0) = (Inr rows, m)"
    using assms(2) by simp
  show ?thesis
    using n restoreFromMemory_fail_fast [OF g assms(3,4,5)] by simp
qed

text \<open>
  The instance: a message library whose \<open>ToolMessage\<close> constructor rejects an empty
  \<open>tool_call_id\<close>, and three stored rows of which the second is a tool row without
  metadata. The system message of row 0 is restored, the throw at row 1 is logged, and
  the human message of row 2 is not restored.
\<close>

theorem restore_fail_fast_witness:
  "deserializeMessage strict_library (three_rows ! 1) = Inl (Error ''tool_call_id is required'')
   \<and> (\<exists>s. new_PersistentMessageManager strict_library node_runtime transient_three = Inr s
         \<and> messages (pipeline s) = [SystemMessage (JString ''System prompt'') (JObject [])]
         \<and> manager_log s =
             [(''PersistentMessageManager'',
               ''Failed to restore chat history: tool_call_id is required'', ''warning'')]
         \<and> restoring s = False)"
proof -
  let ?a = "InMemory (snd (InMemoryChatMemory_replaceConversation ''default''
                             three_rows new_InMemoryChatMemory))"
  have i: "initializeMemory node_runtime transient_three = Inr (?a, [])"
    by (simp add: transient_three_def manager_eval)
  have g: "memory_getMessages node_runtime (resolved_conversationId node_runtime transient_three) ?a
      = (Inr three_rows, ?a)"
    by (simp add: resolved_conversationId_def transient_three_def node_runtime_def three_rows_def
        plain_row_def manager_eval)
  have k: "1 < length three_rows" by (simp add: three_rows_def)
  have d0: "map (deserializeMessage strict_library) (take 1 three_rows)
      = map Inr [SystemMessage (JString ''System prompt'') (JObject [])]"
    by (simp add: three_rows_def plain_row_def deserializeMessage_def restoreContent_def
        strict_library_def list_pipeline_def text_message_def SYSTEM_def Let_def)
  have d1: "deserializeMessage strict_library (three_rows ! 1)
      = Inl (Error ''tool_call_id is required'')"
    by (simp add: three_rows_def plain_row_def deserializeMessage_def restoreContent_def
        toolFields_def strict_library_def list_pipeline_def text_message_def SYSTEM_def
        HUMAN_def TOOL_def Let_def object_or_def string_or_def)
  obtain s where s: "new_PersistentMessageManager strict_library node_runtime transient_three = Inr s"
    "pipeline s = foldl (\<lambda>p message. super_add strict_library message None p)
                      (new_super strict_library (opt_maxTokens transient_three))
                      [SystemMessage (JString ''System prompt'') (JObject [])]"
    "manager_log s = [] @ [warn ''Failed to restore chat history: '' (Error ''tool_call_id is required'')]"
    "restoring s = False"
    using restore_fail_fast [OF i g k d0 d1] by blast
  have "messages (pipeline s) = [SystemMessage (JString ''System prompt'') (JObject [])]"
    using s(2)
    by (simp add: strict_library_def list_pipeline_def list_add_def transient_three_def)
  moreover have "manager_log s =
             [(''PersistentMessageManager'',
               ''Failed to restore chat history: tool_call_id is required'', ''warning'')]"
    using s(3) by (simp add: warn_def)
  ultimately show ?thesis using s(1,4) d1 by blast
qed

subsection \<open>What a restore hands to the constructors\<close>

lemma metadata_get_extractMetadata:
  "metadata_get (extractMetadata message flag) k = map_of (metadata_entries message flag) k"
  by (simp add: metadata_get_def extractMetadata_def metadata_entries_def Let_def)

lemma tool_entries_lookup:
  "map_of (tool_entries message) k =
     (case message of
        ToolMessage c kw tid st art md \<Rightarrow>
          if k = ''toolCallId'' then Some (JString tid)
          else if k = ''toolStatus''
            then (case st of Some status \<Rightarrow> if status \<noteq> [] then Some (JString status) else None
                  | None \<Rightarrow> None)
          else if k = ''artifact'' then art
          else if k = ''toolMetadata''
            then (case md of Some m \<Rightarrow> if has_keys m then Some m else None | None \<Rightarrow> None)
          else None
      | _ \<Rightarrow> None)"
  by (cases message) (auto split: option.splits)

lemma ai_entries_lookup:
  "map_of (ai_entries message) k =
     (case message of
        AIMessage c kw tcs itcs usage \<Rightarrow>
          if k = ''toolCalls'' then (if tcs \<noteq> [] then Some (JArray tcs) else None)
          else if k = ''invalidToolCalls'' then (if itcs \<noteq> [] then Some (JArray itcs) else None)
          else if k = ''usageMetadata''
            then (case usage of Some u \<Rightarrow> if js_truthy u then Some u else None | None \<Rightarrow> None)
          else None
      | _ \<Rightarrow> None)"
  by (cases message) (auto split: option.splits)

lemma metadata_entries_lookup:
  "map_of (metadata_entries message flag) k =
     (if k = ''contentIsJson'' then (if flag then Some (JBool True) else None)
      else if k = ''additional_kwargs''
        then (if has_keys (additional_kwargs message) then Some (additional_kwargs message) else None)
      else (case map_of (tool_entries message) k of
              Some v \<Rightarrow> Some v
            | None \<Rightarrow> map_of (ai_entries message) k))"
  by (cases message)
    (auto simp: metadata_entries_def map_add_def tool_entries_lookup ai_entries_lookup
      split: option.splits)

lemma contentIsJson_flag:
  "(case extractMetadata message flag of
      Some m \<Rightarrow> (case js_get m ''contentIsJson'' of Some f \<Rightarrow> js_truthy f | None \<Rightarrow> False)
    | None \<Rightarrow> False) = flag"
proof -
  have g: "metadata_get (extractMetadata message flag) ''contentIsJson''
      = (if flag then Some (JBool True) else None)"
    by (simp add: metadata_get_extractMetadata metadata_entries_lookup)
  show ?thesis
  proof (cases "extractMetadata message flag")
    case None
    then show ?thesis using g by (simp add: metadata_get_def split: if_splits)
  next
    case (Some m)
    then obtain kvs where "m = JObject kvs"
      using extractMetadata_object [of message flag] by auto
    then show ?thesis using g Some by (simp add: metadata_get_def split: if_splits)
  qed
qed

lemma restoreContent_serialized:
  "restoreContent (serializeMessage X now message sq) = message_content message"
proof (cases "snd (normalizeContent message)")
  case False
  then obtain x where "message_content message = JString x" "fst (normalizeContent message) = x"
    by (cases "message_content message") (auto simp: normalizeContent_def)
  then show ?thesis using False contentIsJson_flag [of message False]
    by (simp add: restoreContent_def serializeMessage_def Let_def)
next
  case True
  then have c: "fst (normalizeContent message) = JSON_stringify (message_content message)"
    by (cases "message_content message") (auto simp: normalizeContent_def)
  show ?thesis
    using True c contentIsJson_flag [of message True]
      JSON_parse_stringify [of "message_content message"]
      JSON_stringify_nonempty [of "message_content message"]
    by (simp add: restoreContent_def serializeMessage_def Let_def)
qed

lemma restore_call_plain:
  assumes "getMessageType X message = SYSTEM \<or> getMessageType X message = HUMAN"
  shows "deserializeMessage X (serializeMessage X now message sq) =
     new_message X (if getMessageType X message = SYSTEM
                    then New_SystemMessage (message_content message)
                    else New_HumanMessage (message_content message))"
proof -
  let ?r = "serializeMessage X now message sq"
  have c: "restoreContent ?r = message_content message" by (rule restoreContent_serialized)
  have r: "role ?r = getMessageType X message" by (simp add: serializeMessage_def Let_def)
  show ?thesis
    using assms unfolding deserializeMessage_def Let_def c r
    by (auto simp: SYSTEM_def HUMAN_def)
qed

lemma stored_annotations:
  "has_keys (additional_kwargs message) \<Longrightarrow>
   metadata_get (metadata (serializeMessage X now message sq)) ''additional_kwargs''
     = Some (additional_kwargs message)"
  by (simp add: serializeMessage_def Let_def metadata_get_extractMetadata metadata_entries_lookup)

lemma mutation_rewrites_rows_aux:
  assumes "\<not> restoring s" "healthy rt" "healthy rt'" "adapter_ok (memory s)"
  shows "rewritten X rt rt' (add X rt message position s)"
proof -
  have a: "add X rt message position s
      = persistMessages X rt (s\<lparr>pipeline := super_add X message position (pipeline s)\<rparr>)"
    using assms(1) by (simp add: add_def)
  show ?thesis
    using persist_then_read [OF assms(2,3), of "s\<lparr>pipeline := super_add X message position (pipeline s)\<rparr>" X]
      assms(4) a by simp
qed

lemma restore_loop_all:
  "map (deserializeMessage X) rows = map Inr ms \<Longrightarrow>
   restore_loop X rows s =
     (Inr (), s\<lparr>pipeline := foldl (\<lambda>p message. super_add X message None p) (pipeline s) ms\<rparr>)"
proof (induction rows arbitrary: ms s)
  case Nil
  then show ?case by simp
next
  case (Cons row rows)
  then obtain message ms' where ms: "ms = message # ms'"
    and d: "deserializeMessage X row = Inr message"
    and rest: "map (deserializeMessage X) rows = map Inr ms'"
    by (cases ms) auto
  show ?case using Cons.IH [OF rest] d ms by simp
qed

lemma restoreFromMemory_all:
  assumes "memory_getMessages rt (conversationId s) (memory s) = (Inr rows, m)"
    and "map (deserializeMessage X) rows = map Inr ms"
  shows "restoreFromMemory X rt s =
     s\<lparr>pipeline := foldl (\<lambda>p message. super_add X message None p) (pipeline s) ms,
       memory := m, restoring := False\<rparr>"
proof (cases "rows = []")
  case True
  then have "ms = []" using assms(2) by simp
  then show ?thesis using True assms(1)
    by (simp add: restoreFromMemory_def restoreFromMemory_try_def)
next
  case False
  then have "restoreFromMemory_try X rt s =
      restore_loop X rows (s\<lparr>memory := m, restoring := True\<rparr>)"
    using assms(1) by (simp add: restoreFromMemory_try_def)
  then show ?thesis
    using restore_loop_all [OF assms(2), of "s\<lparr>memory := m, restoring := True\<rparr>"]
    by (simp add: restoreFromMemory_def)
qed

lemma foldl_list_add:
  "foldl (\<lambda>p message. super_add list_pipeline message None p) p ms = p\<lparr>messages := messages p @ ms\<rparr>"
  by (induction ms arbitrary: p) (simp_all add: list_pipeline_def list_add_def)

lemma initializeMemory_open:
  assumes "adapter_open a" "opt_memory options = Some a"
  shows "initializeMemory rt options = Inr (a, [])"
proof (cases a)
  case (SQLite q)
  then have "database q" using assms(1) by (simp add: adapter_open_def)
  then show ?thesis using SQLite assms(2)
    by (simp add: initializeMemory_def use_if_available_def SQLiteChatMemory_initialize_def
        SQLiteChatMemory_isAvailable_def ensureDatabase_open)
next
  case (InMemory q)
  then show ?thesis using assms(2)
    by (simp add: initializeMemory_def use_if_available_def InMemoryChatMemory_initialize_def
        InMemoryChatMemory_isAvailable_def)
qed

lemma memory_replace_open:
  assumes "healthy rt" "adapter_ok a"
  shows "adapter_open (snd (memory_replaceConversation rt cid rows a))"
proof (cases a)
  case (SQLite q)
  then have "database q \<longrightarrow> statements q" using assms(2) by (simp add: adapter_ok_def)
  then obtain s1 where e: "ensureDatabase rt q = (True, s1)" and o: "database s1" "statements s1"
    using ensureDatabase_healthy [OF assms(1)] by blast
  then show ?thesis using SQLite
    by (simp add: adapter_open_def SQLiteChatMemory_replaceConversation_def
        split: prod.splits sum.splits)
next
  case (InMemory q)
  then show ?thesis by (simp add: adapter_open_def InMemoryChatMemory_replaceConversation_def)
qed

lemma reopen:
  assumes "adapter_open (memory s)"
    and "fst (memory_getMessages rt (conversationId s) (memory s)) = Inr rows"
    and "map (deserializeMessage X) rows = map Inr ms"
  shows "\<exists>s'. new_PersistentMessageManager X rt (reopened budget path s) = Inr s'
     \<and> pipeline s' = foldl (\<lambda>p message. super_add X message None p) (new_super X budget) ms"
proof -
  have i: "initializeMemory rt (reopened budget path s) = Inr (memory s, [])"
    using initializeMemory_open [OF assms(1)] by (simp add: reopened_def)
  obtain m where g: "memory_getMessages rt (conversationId s) (memory s) = (Inr rows, m)"
    using assms(2) by (cases "memory_getMessages rt (conversationId s) (memory s)") auto
  let ?s0 = "\<lparr>pipeline = new_super X budget, memory = memory s,
      conversationId = conversationId s, restoring = False, manager_log = []\<rparr>"
  have "new_PersistentMessageManager X rt (reopened budget path s) = Inr (restoreFromMemory X rt ?s0)"
    using i by (simp add: new_PersistentMessageManager_def resolved_conversationId_def reopened_def)
  moreover have "pipeline (restoreFromMemory X rt ?s0)
      = foldl (\<lambda>p message. super_add X message None p) (new_super X budget) ms"
    using restoreFromMemory_all [of rt ?s0 rows m X ms] g assms(3) by simp
  ultimately show ?thesis by simp
qed

lemma serialize_all_nonempty: "ms \<noteq> [] \<Longrightarrow> serialize_all X now ms \<noteq> []"
  by (metis length_0_conv serialize_all_length)

lemma serialize_all_last:
  "last (serialize_all X now (ms @ [message])) = serializeMessage X now message (int (length ms))"
proof -
  have n: "length (serialize_all X now (ms @ [message])) = Suc (length ms)" by simp
  have "serialize_all X now (ms @ [message]) \<noteq> []" by (simp add: serialize_all_nonempty)
  then have "last (serialize_all X now (ms @ [message]))
      = serialize_all X now (ms @ [message]) ! length ms"
    using n by (simp add: last_conv_nth)
  then show ?thesis by (simp add: serialize_all_nth)
qed


lemma added_row:
  assumes "\<not> restoring s" "healthy rt" "healthy rt'" "adapter_ok (memory s)"
    and "super_getMessages X (super_add X message None (pipeline s)) = ms @ [message]"
  shows "fst (memory_getMessages rt' (conversationId s) (memory (add X rt message None s)))
           = Inr (serialize_all X (clock rt) (ms @ [message]))"
    and "last (serialize_all X (clock rt) (ms @ [message]))
           = serializeMessage X (clock rt) message (int (length ms))"
proof -
  have "rewritten X rt rt' (add X rt message None s)"
    using mutation_rewrites_rows_aux [OF assms(1,2,3,4)] by blast
  then show "fst (memory_getMessages rt' (conversationId s) (memory (add X rt message None s)))
           = Inr (serialize_all X (clock rt) (ms @ [message]))"
    unfolding rewritten_def using assms(5) by simp
  show "last (serialize_all X (clock rt) (ms @ [message]))
           = serializeMessage X (clock rt) message (int (length ms))"
    by (rule serialize_all_last)
qed

lemma map_of_field:
  "map_of (case v of Some x \<Rightarrow> [(k, f x)] | None \<Rightarrow> []) k'
     = (if k' = k then map_option f v else None)"
  by (cases v) simp_all

lemma tool_and_ai_calls:
  "map_of (toolFields c md) ''content'' = Some c"
  "map_of (toolFields c md) ''additional_kwargs'' = object_or (js_get md ''additional_kwargs'')"
  "map_of (aiFields c md) ''content'' = Some c"
  "map_of (aiFields c md) ''additional_kwargs'' = object_or (js_get md ''additional_kwargs'')"
  by (simp_all add: toolFields_def aiFields_def map_add_def map_of_field option.map_ident
      split: option.splits)

text \<open>
  Claim C1 fails on the code, for system and human messages. A system or human message
  that carries annotations is added to a live manager over a working adapter, after
  which the pipeline's list ends with it. The row stored for it holds the annotations
  in its metadata. The restore of that row is the constructor call
  \<open>new SystemMessage(content)\<close> or \<open>new HumanMessage(content)\<close> with the
  content as its only argument: the annotations that were stored are not part of the
  call. So whatever the library builds, the restore gives the same result for the row
  of any message of that kind and content, with other annotations or with none. The
  calls for a tool or an AI message do pass the stored annotations, as the property
  \<open>additional_kwargs\<close> of their fields (\<open>tool_and_ai_calls\<close>).
\<close>

theorem annotations_not_restored:
  assumes "\<not> restoring s" and "healthy rt" and "healthy rt'" and "adapter_ok (memory s)"
    and "super_getMessages X (super_add X message None (pipeline s)) = ms @ [message]"
    and "getMessageType X message = SYSTEM \<or> getMessageType X message = HUMAN"
    and "has_keys (additional_kwargs message)"
  shows "\<exists>rows.
       fst (memory_getMessages rt' (conversationId s) (memory (add X rt message None s)))
         = Inr rows
     \<and> length rows = length ms + 1
     \<and> metadata_get (metadata (last rows)) ''additional_kwargs''
         = Some (additional_kwargs message)
     \<and> deserializeMessage X (last rows) =
         new_message X (if getMessageType X message = SYSTEM
                        then New_SystemMessage (message_content message)
                        else New_HumanMessage (message_content message))
     \<and> (\<forall>other now' sq'.
           getMessageType X other = getMessageType X message
           \<and> message_content other = message_content message
           \<longrightarrow> deserializeMessage X (serializeMessage X now' other sq')
                 = deserializeMessage X (last rows))"
proof -
  let ?rows = "serialize_all X (clock rt) (ms @ [message])"
  note r = added_row [OF assms(1,2,3,4,5)]
  have "length ?rows = length ms + 1" by simp
  moreover have "metadata_get (metadata (last ?rows)) ''additional_kwargs''
      = Some (additional_kwargs message)"
    unfolding r(2) using assms(7) by (rule stored_annotations)
  moreover have d: "deserializeMessage X (last ?rows) =
         new_message X (if getMessageType X message = SYSTEM
                        then New_SystemMessage (message_content message)
                        else New_HumanMessage (message_content message))"
    unfolding r(2) using assms(6) by (rule restore_call_plain)
  moreover have "deserializeMessage X (serializeMessage X now' other sq')
      = deserializeMessage X (last ?rows)"
    if "getMessageType X other = getMessageType X message"
      "message_content other = message_content message" for other now' sq'
  proof -
    have "getMessageType X other = SYSTEM \<or> getMessageType X other = HUMAN"
      using assms(6) that(1) by simp
    then show ?thesis using restore_call_plain [of X other now' sq'] d that by simp
  qed
  ultimately show ?thesis using r(1) by blast
qed

text \<open>
  The instance, on the durable backend with the list pipeline and the library of the
  examples: a human message with the content \<open>Hello world\<close> and the annotation
  \<open>source = user\<close> is the first message added. Its row holds the annotation, and
  the manager constructed next on the same store holds a human message with that
  content and no annotation.
\<close>

theorem annotations_not_restored_witness:
  "\<not> restoring persist_case \<and> healthy node_runtime \<and> adapter_ok (memory persist_case)
   \<and> has_keys (additional_kwargs annotated_human)
   \<and> messages (pipeline (add list_pipeline node_runtime annotated_human None persist_case))
       = [HumanMessage (JString ''Hello world'') (JObject [(''source'', JString ''user'')])]
   \<and> (\<exists>row.
         fst (memory_getMessages node_runtime ''persist-case''
                (memory (add list_pipeline node_runtime annotated_human None persist_case)))
           = Inr [row]
       \<and> metadata_get (metadata row) ''additional_kwargs''
           = Some (JObject [(''source'', JString ''user'')])
       \<and> deserializeMessage list_pipeline row
           = Inr (HumanMessage (JString ''Hello world'') (JObject [])))
   \<and> (\<exists>s'. new_PersistentMessageManager list_pipeline node_runtime
               (reopened None None
                  (add list_pipeline node_runtime annotated_human None persist_case))
             = Inr s'
          \<and> messages (pipeline s') = [HumanMessage (JString ''Hello world'') (JObject [])])"
proof -
  let ?s1 = "add list_pipeline node_runtime annotated_human None persist_case"
  let ?plain = "HumanMessage (JString ''Hello world'') (JObject [])"
  have l: "\<not> restoring persist_case" by (simp add: persist_case_eval)
  have h: "healthy node_runtime" by (simp add: healthy_def node_runtime_def)
  have a: "adapter_ok (memory persist_case)" by (simp add: persist_case_eval adapter_ok_def)
  have g: "super_getMessages list_pipeline
             (super_add list_pipeline annotated_human None (pipeline persist_case))
           = [] @ [annotated_human]"
    by (simp add: list_pipeline_def list_add_def persist_case_eval)
  have k: "getMessageType list_pipeline annotated_human = SYSTEM
           \<or> getMessageType list_pipeline annotated_human = HUMAN"
    by (simp add: list_pipeline_def annotated_human_def)
  have n: "has_keys (additional_kwargs annotated_human)"
    by (simp add: annotated_human_def has_keys_def)
  have p: "messages (pipeline ?s1) = [annotated_human]"
    by (simp add: list_pipeline_def list_add_def persist_case_eval)
  have c: "conversationId persist_case = ''persist-case''" by (simp add: persist_case_eval)
  obtain rows where rows:
    "fst (memory_getMessages node_runtime (conversationId persist_case) (memory ?s1)) = Inr rows"
    "length rows = length ([] :: Message list) + 1"
    "metadata_get (metadata (last rows)) ''additional_kwargs''
       = Some (additional_kwargs annotated_human)"
    "deserializeMessage list_pipeline (last rows) =
       new_message list_pipeline
         (if getMessageType list_pipeline annotated_human = SYSTEM
          then New_SystemMessage (message_content annotated_human)
          else New_HumanMessage (message_content annotated_human))"
    using annotations_not_restored [OF l h h a g k n] by blast
  obtain row where row: "rows = [row]"
    using rows(2) by (cases rows) auto
  have d: "deserializeMessage list_pipeline row = Inr ?plain"
    using rows(4) row
    by (simp add: list_pipeline_def annotated_human_def text_message_def SYSTEM_def HUMAN_def)
  have m: "metadata_get (metadata row) ''additional_kwargs''
      = Some (JObject [(''source'', JString ''user'')])"
    using rows(3) row by (simp add: annotated_human_def)
  have o: "adapter_open (memory ?s1)"
    using l memory_replace_open [OF h a] by (simp add: add_def persistMessages_memory)
  have r: "fst (memory_getMessages node_runtime (conversationId ?s1) (memory ?s1)) = Inr rows"
    using rows(1) by simp
  have dm: "map (deserializeMessage list_pipeline) rows = map Inr [?plain]"
    using d row by simp
  obtain s' where s': "new_PersistentMessageManager list_pipeline node_runtime
        (reopened None None ?s1) = Inr s'"
    "pipeline s' = foldl (\<lambda>p message. super_add list_pipeline message None p)
                     (new_super list_pipeline None) [?plain]"
    using reopen [OF o r dm] by blast
  have "messages (pipeline s') = [?plain]"
    using s'(2) by (simp add: list_pipeline_def list_add_def)
  then have e: "\<exists>s'. new_PersistentMessageManager list_pipeline node_runtime
        (reopened None None ?s1) = Inr s' \<and> messages (pipeline s') = [?plain]"
    using s'(1) by blast
  have f: "\<exists>row. fst (memory_getMessages node_runtime ''persist-case'' (memory ?s1)) = Inr [row]
       \<and> metadata_get (metadata row) ''additional_kwargs''
           = Some (JObject [(''source'', JString ''user'')])
       \<and> deserializeMessage list_pipeline row = Inr ?plain"
    using rows(1) row c m d by auto
  have p': "messages (pipeline ?s1)
      = [HumanMessage (JString ''Hello world'') (JObject [(''source'', JString ''user'')])]"
    using p by (simp add: annotated_human_def)
  show ?thesis using l h a n p' f e by blast
qed



section \<open>Copies in the transient backend are one level deep\<close>

lemmas heap_eval =
  tool_stored_def tool_heap_def heap_replaceConversation_def heap_getMessages_def
  copy_message_def alloc_def heap_write_def elements_def returned_deep_def returned_rows_def
  row_view_def Let_def

text \<open>
  Claim C8 as it is stated fails. After the row of the example is stored, the caller
  changes the artifact nested in the metadata of the row it passed (cell 0); the next
  \<open>getMessages\<close> returns the changed artifact. The copy is one level deep.
\<close>

theorem nested_values_are_shared:
  "returned_deep 6 ''default''
     (fst tool_stored, heap_write 0 (Obj [(''rows'', Number 99)]) (snd tool_stored))
   \<noteq> returned_deep 6 ''default'' tool_stored
   \<and> artifact_of (returned_deep 6 ''default'' tool_stored)
       = Some (JObject [(''rows'', JNumber 3)])
   \<and> artifact_of (returned_deep 6 ''default''
         (fst tool_stored, heap_write 0 (Obj [(''rows'', Number 99)]) (snd tool_stored)))
       = Some (JObject [(''rows'', JNumber 99)])"
  by (simp add: heap_eval eval_nat_numeral artifact_of_def)

lemma tool_stored_next: "next_ref (snd tool_stored) = 7"
  by (simp add: heap_eval)

lemma map_of_put: "map_of (put k v ps) k = Some v"
  by (induction ps) auto

lemma filter_put: "filter (\<lambda>p. fst p \<noteq> k) (put k v ps) = filter (\<lambda>p. fst p \<noteq> k) ps"
  by (induction ps) auto

lemma owned_agree:
  "owned lo hi h v \<Longrightarrow> agree lo hi g h \<Longrightarrow> owned lo hi g v"
proof -
  assume o: "owned lo hi h v" and a: "agree lo hi g h"
  obtain c ps where v: "v = Ref c" and c: "lo \<le> c" "c < hi" and ps: "cells h c = Some (Obj ps)"
    and md: "map_of ps ''metadata'' = Some Undefined
            \<or> (\<exists>m mps. map_of ps ''metadata'' = Some (Ref m) \<and> lo \<le> m \<and> m < hi
                  \<and> cells h m = Some (Obj mps))"
    using o unfolding owned_def by blast
  have gc: "cells g c = Some (Obj ps)" using a c ps by (simp add: agree_def)
  from md have "map_of ps ''metadata'' = Some Undefined
            \<or> (\<exists>m mps. map_of ps ''metadata'' = Some (Ref m) \<and> lo \<le> m \<and> m < hi
                  \<and> cells g m = Some (Obj mps))"
    using a by (auto simp: agree_def)
  then show ?thesis unfolding owned_def using v c gc by blast
qed

lemma row_view_agree:
  assumes "owned lo hi h v" "agree lo hi g h"
  shows "row_view g v = row_view h v"
proof -
  obtain c ps where v: "v = Ref c" and c: "lo \<le> c" "c < hi" and ps: "cells h c = Some (Obj ps)"
    and md: "map_of ps ''metadata'' = Some Undefined
            \<or> (\<exists>m mps. map_of ps ''metadata'' = Some (Ref m) \<and> lo \<le> m \<and> m < hi
                  \<and> cells h m = Some (Obj mps))"
    using assms(1) unfolding owned_def by blast
  have gc: "cells g c = Some (Obj ps)" using assms(2) c ps by (simp add: agree_def)
  from md show ?thesis
  proof
    assume "map_of ps ''metadata'' = Some Undefined"
    then show ?thesis using v ps gc by (simp add: row_view_def)
  next
    assume "\<exists>m mps. map_of ps ''metadata'' = Some (Ref m) \<and> lo \<le> m \<and> m < hi
                  \<and> cells h m = Some (Obj mps)"
    then obtain m mps where m: "map_of ps ''metadata'' = Some (Ref m)" "lo \<le> m" "m < hi"
      "cells h m = Some (Obj mps)" by blast
    then have "cells g m = Some (Obj mps)" using assms(2) by (simp add: agree_def)
    then show ?thesis using v ps gc m by (simp add: row_view_def)
  qed
qed

lemma copy_message_frame:
  assumes "copy_message h v = (c, h')"
  shows "next_ref h \<le> next_ref h'" and "\<forall>a < next_ref h. cells h' a = cells h a"
    and "owned (next_ref h) (next_ref h') h' (Ref c)"
proof -
  let ?ps = "spread h v"
  let ?md = "case map_of ?ps ''metadata'' of Some x \<Rightarrow> x | None \<Rightarrow> Undefined"
  show "next_ref h \<le> next_ref h'"
    using assms by (auto simp: copy_message_def alloc_def Let_def split: if_splits)
  show "\<forall>a < next_ref h. cells h' a = cells h a"
    using assms by (auto simp: copy_message_def alloc_def Let_def split: if_splits)
  show "owned (next_ref h) (next_ref h') h' (Ref c)"
  proof (cases "truthy ?md")
    case True
    then have "c = Suc (next_ref h)" "next_ref h' = Suc (Suc (next_ref h))"
      "cells h' (Suc (next_ref h)) = Some (Obj (put ''metadata'' (Ref (next_ref h)) ?ps))"
      "cells h' (next_ref h) = Some (Obj (spread h ?md))"
      using assms by (auto simp: copy_message_def alloc_def Let_def)
    then show ?thesis by (auto simp: owned_def map_of_put)
  next
    case False
    then have "c = next_ref h" "next_ref h' = Suc (next_ref h)"
      "cells h' (next_ref h) = Some (Obj (put ''metadata'' Undefined ?ps))"
      using assms by (auto simp: copy_message_def alloc_def Let_def)
    then show ?thesis by (auto simp: owned_def map_of_put)
  qed
qed

lemma copy_messages_frame:
  "copy_messages h vs = (rs, h') \<Longrightarrow>
     next_ref h \<le> next_ref h' \<and> (\<forall>a < next_ref h. cells h' a = cells h a)
     \<and> (\<forall>v \<in> set rs. owned (next_ref h) (next_ref h') h' v)"
proof (induction vs arbitrary: h rs h')
  case Nil
  then show ?case by simp
next
  case (Cons v vs)
  obtain c h1 where c: "copy_message h v = (c, h1)" by (cases "copy_message h v")
  obtain rs1 h2 where r: "copy_messages h1 vs = (rs1, h2)" by (cases "copy_messages h1 vs")
  have e: "rs = Ref c # rs1" "h' = h2" using Cons.prems c r by simp_all
  note f1 = copy_message_frame [OF c]
  have f2: "next_ref h1 \<le> next_ref h2" "\<forall>a < next_ref h1. cells h2 a = cells h1 a"
    "\<forall>v \<in> set rs1. owned (next_ref h1) (next_ref h2) h2 v"
    using Cons.IH [OF r] by simp_all
  have a: "agree (next_ref h) (next_ref h1) h2 h1" using f2(2) by (simp add: agree_def)
  have "owned (next_ref h) (next_ref h1) h2 (Ref c)" using owned_agree [OF f1(3) a] .
  then have o1: "owned (next_ref h) (next_ref h2) h2 (Ref c)"
    using f2(1) unfolding owned_def by (elim exE conjE disjE) (force, force)
  have o2: "\<forall>v \<in> set rs1. owned (next_ref h) (next_ref h2) h2 v"
  proof
    fix x assume "x \<in> set rs1"
    then have "owned (next_ref h1) (next_ref h2) h2 x" using f2(3) by simp
    then show "owned (next_ref h) (next_ref h2) h2 x"
      using f1(1) unfolding owned_def by (elim exE conjE disjE) (force, force)
  qed
  show ?case using e f1(1,2) f2(1,2) o1 o2 by auto
qed

lemma copy_message_view:
  assumes "owned lo hi h0 v" "agree lo hi g h0" "hi \<le> next_ref g" "copy_message g v = (c, g')"
  shows "row_view g' (Ref c) = row_view h0 v"
proof -
  obtain c0 ps where v: "v = Ref c0" and c0: "lo \<le> c0" "c0 < hi"
    and ps: "cells h0 c0 = Some (Obj ps)"
    and md: "map_of ps ''metadata'' = Some Undefined
            \<or> (\<exists>m mps. map_of ps ''metadata'' = Some (Ref m) \<and> lo \<le> m \<and> m < hi
                  \<and> cells h0 m = Some (Obj mps))"
    using assms(1) unfolding owned_def by blast
  have gc: "cells g c0 = Some (Obj ps)" using assms(2) c0 ps by (simp add: agree_def)
  from md show ?thesis
  proof
    assume u: "map_of ps ''metadata'' = Some Undefined"
    then have "c = next_ref g"
      "cells g' (next_ref g) = Some (Obj (put ''metadata'' Undefined ps))"
      using assms(4) v gc by (auto simp: copy_message_def alloc_def Let_def)
    then show ?thesis using u v ps
      by (simp add: row_view_def map_of_put filter_put)
  next
    assume "\<exists>m mps. map_of ps ''metadata'' = Some (Ref m) \<and> lo \<le> m \<and> m < hi
                  \<and> cells h0 m = Some (Obj mps)"
    then obtain m mps where m: "map_of ps ''metadata'' = Some (Ref m)" "lo \<le> m" "m < hi"
      "cells h0 m = Some (Obj mps)" by blast
    then have gm: "cells g m = Some (Obj mps)" using assms(2) by (simp add: agree_def)
    have "c = Suc (next_ref g)"
      "cells g' (Suc (next_ref g)) = Some (Obj (put ''metadata'' (Ref (next_ref g)) ps))"
      "cells g' (next_ref g) = Some (Obj mps)"
      using assms(4) v gc gm m(1) by (auto simp: copy_message_def alloc_def Let_def)
    then show ?thesis using m v ps
      by (simp add: row_view_def map_of_put filter_put)
  qed
qed

lemma copy_messages_view:
  "\<forall>v \<in> set vs. owned lo hi h0 v \<Longrightarrow> agree lo hi g h0 \<Longrightarrow> hi \<le> next_ref g \<Longrightarrow>
   copy_messages g vs = (rs, g') \<Longrightarrow> map (row_view g') rs = map (row_view h0) vs"
proof (induction vs arbitrary: g rs g')
  case Nil
  then show ?case by simp
next
  case (Cons v vs)
  obtain c g1 where c: "copy_message g v = (c, g1)" by (cases "copy_message g v")
  obtain rs1 g2 where r: "copy_messages g1 vs = (rs1, g2)" by (cases "copy_messages g1 vs")
  have e: "rs = Ref c # rs1" "g' = g2" using Cons.prems(4) c r by simp_all
  note f1 = copy_message_frame [OF c]
  note f2 = copy_messages_frame [OF r]
  have v1: "row_view g1 (Ref c) = row_view h0 v"
    using copy_message_view [OF _ Cons.prems(2,3) c] Cons.prems(1) by simp
  have "agree (next_ref g) (next_ref g1) g2 g1" using f2 by (simp add: agree_def)
  then have v2: "row_view g2 (Ref c) = row_view g1 (Ref c)"
    using row_view_agree [OF f1(3)] by simp
  have a1: "agree lo hi g1 h0"
    using Cons.prems(2,3) f1(2) by (auto simp: agree_def)
  have "map (row_view g2) rs1 = map (row_view h0) vs"
    using Cons.IH [OF _ a1 _ r] Cons.prems(1,3) f1(1) by simp
  then show ?case using e v1 v2 by simp
qed

lemma returned_rows_private:
  assumes "st cid = Some a" "lo \<le> a" "a < hi" "cells h0 a = Some (Arr vs)"
    and "\<forall>v \<in> set vs. owned lo hi h0 v" "agree lo hi g h0" "hi \<le> next_ref g"
  shows "returned_rows cid (st, g) = map (row_view h0) vs"
proof -
  have el: "elements g a = vs" using assms(2,3,4,6) by (simp add: elements_def agree_def)
  obtain rs g1 where r: "copy_messages g vs = (rs, g1)" by (cases "copy_messages g vs")
  note f = copy_messages_frame [OF r]
  let ?g2 = "snd (alloc (Arr rs) g1)"
  have res: "heap_getMessages cid (st, g) = (next_ref g1, ?g2)"
    using assms(1) el r by (simp add: heap_getMessages_def alloc_def)
  have e2: "elements ?g2 (next_ref g1) = rs" by (simp add: alloc_def elements_def)
  have "agree (next_ref g) (next_ref g1) ?g2 g1" by (simp add: agree_def alloc_def)
  then have "\<forall>v \<in> set rs. row_view ?g2 v = row_view g1 v"
    using f row_view_agree by blast
  then have "map (row_view ?g2) rs = map (row_view g1) rs" by simp
  also have "\<dots> = map (row_view h0) vs"
    using copy_messages_view [OF assms(5,6,7) r] .
  finally show ?thesis using res e2 by (simp add: returned_rows_def)
qed

lemma replaceConversation_private:
  assumes "heap_replaceConversation cid passed (st, h) = (st', h')"
  shows "\<exists>a vs. st' cid = Some a \<and> next_ref h \<le> a \<and> a < next_ref h'
     \<and> cells h' a = Some (Arr vs)
     \<and> (\<forall>v \<in> set vs. owned (next_ref h) (next_ref h') h' v)"
proof -
  obtain rs h1 where r: "copy_messages h (elements h passed) = (rs, h1)"
    by (cases "copy_messages h (elements h passed)")
  note f = copy_messages_frame [OF r]
  have s: "st' = st(cid \<mapsto> next_ref h1)" "h' = snd (alloc (Arr rs) h1)"
    using assms r by (auto simp: heap_replaceConversation_def alloc_def)
  have a: "agree (next_ref h) (next_ref h1) h' h1" using s by (simp add: agree_def alloc_def)
  have n: "next_ref h' = Suc (next_ref h1)" using s by (simp add: alloc_def)
  have "\<forall>v \<in> set rs. owned (next_ref h) (next_ref h') h' v"
  proof
    fix x assume "x \<in> set rs"
    then have "owned (next_ref h) (next_ref h1) h' x" using f owned_agree [OF _ a] by blast
    then show "owned (next_ref h) (next_ref h') h' x"
      using n unfolding owned_def by (elim exE conjE disjE) (force, force)
  qed
  moreover have "cells h' (next_ref h1) = Some (Arr rs)" using s by (simp add: alloc_def)
  ultimately show ?thesis using s(1) f n by auto
qed

lemma getMessages_frame:
  "heap_getMessages cid (st, h) = (res, h') \<Longrightarrow>
     next_ref h \<le> next_ref h' \<and> (\<forall>a < next_ref h. cells h' a = cells h a)"
proof (cases "st cid")
  case None
  assume "heap_getMessages cid (st, h) = (res, h')"
  then show ?thesis using None by (auto simp: heap_getMessages_def alloc_def)
next
  case (Some a)
  assume g: "heap_getMessages cid (st, h) = (res, h')"
  obtain rs h1 where r: "copy_messages h (elements h a) = (rs, h1)"
    by (cases "copy_messages h (elements h a)")
  note f = copy_messages_frame [OF r]
  have "h' = snd (alloc (Arr rs) h1)" using g Some r by (auto simp: heap_getMessages_def)
  then show ?thesis using f by (auto simp: alloc_def)
qed

lemma kept_rows_private:
  assumes "st cid = Some a" "lo \<le> a" "a < hi" "cells h0 a = Some (Arr vs)"
    and "\<forall>v \<in> set vs. owned lo hi h0 v" "agree lo hi g h0"
  shows "kept_rows cid (st, g) = map (row_view h0) vs"
proof -
  have el: "elements g a = vs" using assms(2,3,4,6) by (simp add: elements_def agree_def)
  have "\<forall>v \<in> set vs. row_view g v = row_view h0 v"
    using assms(5,6) row_view_agree by blast
  then show ?thesis using assms(1) el by (simp add: kept_rows_def)
qed

lemma owned_handles:
  assumes "owned lo hi h v" "r \<in> set (row_handles h v)"
  shows "lo \<le> r \<and> r < hi"
proof -
  obtain c ps where v: "v = Ref c" and c: "lo \<le> c" "c < hi" and ps: "cells h c = Some (Obj ps)"
    and md: "map_of ps ''metadata'' = Some Undefined
            \<or> (\<exists>m mps. map_of ps ''metadata'' = Some (Ref m) \<and> lo \<le> m \<and> m < hi
                  \<and> cells h m = Some (Obj mps))"
    using assms(1) unfolding owned_def by blast
  from md show ?thesis
  proof
    assume "map_of ps ''metadata'' = Some Undefined"
    then show ?thesis using assms(2) v c ps by simp
  next
    assume "\<exists>m mps. map_of ps ''metadata'' = Some (Ref m) \<and> lo \<le> m \<and> m < hi
                  \<and> cells h m = Some (Obj mps)"
    then obtain m where "map_of ps ''metadata'' = Some (Ref m)" "lo \<le> m" "m < hi" by blast
    then show ?thesis using assms(2) v c ps by auto
  qed
qed

lemma getMessages_handles:
  assumes "heap_getMessages cid (st, h) = (res, h')" "r \<in> set (handles h' res)"
  shows "next_ref h \<le> r \<and> r < next_ref h'"
proof (cases "st cid")
  case None
  then have "res = next_ref h" "h' = snd (alloc (Arr []) h)"
    using assms(1) by (auto simp: heap_getMessages_def alloc_def)
  then show ?thesis using assms(2) by (simp add: handles_def elements_def alloc_def)
next
  case (Some a)
  obtain rs h1 where c: "copy_messages h (elements h a) = (rs, h1)"
    by (cases "copy_messages h (elements h a)")
  note f = copy_messages_frame [OF c]
  have e: "res = next_ref h1" "h' = snd (alloc (Arr rs) h1)"
    using assms(1) Some c by (auto simp: heap_getMessages_def alloc_def)
  have n: "next_ref h' = Suc (next_ref h1)" using e by (simp add: alloc_def)
  have el: "elements h' res = rs" using e by (simp add: alloc_def elements_def)
  have a: "agree (next_ref h) (next_ref h1) h' h1" using e by (simp add: agree_def alloc_def)
  from assms(2) have "r = res \<or> (\<exists>v \<in> set rs. r \<in> set (row_handles h' v))"
    using el by (auto simp: handles_def)
  then show ?thesis
  proof
    assume "r = res"
    then show ?thesis using e(1) n f by simp
  next
    assume "\<exists>v \<in> set rs. r \<in> set (row_handles h' v)"
    then obtain v where v: "v \<in> set rs" "r \<in> set (row_handles h' v)" by blast
    then have "owned (next_ref h) (next_ref h1) h' v" using f owned_agree [OF _ a] by blast
    then show ?thesis using owned_handles v(2) n by fastforce
  qed
qed

lemma outside_writes:
  assumes "heap_replaceConversation cid passed (st, h) = (st', h')"
    and "agree (next_ref h) (next_ref h') g h'" "next_ref h' \<le> next_ref g"
  shows "returned_rows cid (st', g) = returned_rows cid (st', h')
     \<and> kept_rows cid (st', g) = kept_rows cid (st', h')"
proof -
  obtain a vs where p: "st' cid = Some a" "next_ref h \<le> a" "a < next_ref h'"
    "cells h' a = Some (Arr vs)" "\<forall>v \<in> set vs. owned (next_ref h) (next_ref h') h' v"
    using replaceConversation_private [OF assms(1)] by blast
  have same: "returned_rows cid (st', g) = map (row_view h') vs"
    if "agree (next_ref h) (next_ref h') g h'" "next_ref h' \<le> next_ref g" for g
    using returned_rows_private [of st' cid a "next_ref h" "next_ref h'" h' vs g] p that
    by blast
  have kept: "kept_rows cid (st', g) = map (row_view h') vs"
    if "agree (next_ref h) (next_ref h') g h'" for g
    using kept_rows_private [of st' cid a "next_ref h" "next_ref h'" h' vs g] p that
    by blast
  have r: "agree (next_ref h) (next_ref h') h' h'" by (simp add: agree_def)
  show ?thesis using same [OF assms(2,3)] same [OF r] kept [OF assms(2)] kept [OF r] by simp
qed

text \<open>
  Claim C8, amended. A caller passes an array of rows to \<open>replaceConversation\<close>
  and later calls \<open>getMessages\<close>. Let it then change any object it holds: an
  object that existed when it called \<open>replaceConversation\<close> (the array and the
  rows it passed, their metadata maps, whatever is nested in them), or the array that
  \<open>getMessages\<close> returned, a row in that array or the metadata map of such a
  row. The objects \<open>getMessages\<close> returned were created by that call, so none of
  them is an object the backend keeps. After the change the backend holds what it held,
  and the next \<open>getMessages\<close> and the one after it return what
  \<open>getMessages\<close> would have returned, all read one level deep: the same rows in the same order, each with the same own properties
  and the same properties of its metadata map. The same holds for a change made before
  the \<open>getMessages\<close> to an object that existed when \<open>replaceConversation\<close>
  was called. A value nested in a metadata map is the same reference as before, so it
  is shared with the caller, as the counterexample shows.
\<close>

theorem copies_one_level:
  assumes "heap_replaceConversation cid passed (st, h) = (st', h')"
    and "heap_getMessages cid (st', h') = (res, h'')"
    and "r < next_ref h \<or> r \<in> set (handles h'' res)"
  shows "returned_rows cid (st', heap_write r ob h'') = returned_rows cid (st', h')
     \<and> returned_rows cid (st', snd (heap_getMessages cid (st', heap_write r ob h'')))
         = returned_rows cid (st', h')
     \<and> kept_rows cid (st', heap_write r ob h'') = kept_rows cid (st', h')
     \<and> (r \<in> set (handles h'' res) \<longrightarrow> next_ref h' \<le> r \<and> r < next_ref h'')
     \<and> (r < next_ref h \<longrightarrow>
          returned_rows cid (st', heap_write r ob h') = returned_rows cid (st', h')
          \<and> kept_rows cid (st', heap_write r ob h') = kept_rows cid (st', h'))"
proof -
  note f = getMessages_frame [OF assms(2)]
  have fresh: "next_ref h' \<le> r \<and> r < next_ref h''" if "r \<in> set (handles h'' res)"
    using getMessages_handles [OF assms(2) that] .
  have out: "r < next_ref h \<or> next_ref h' \<le> r" using assms(3) fresh by blast
  have "agree (next_ref h) (next_ref h') (heap_write r ob h'') h'"
    using f out by (auto simp: agree_def heap_write_def)
  moreover have "next_ref h' \<le> next_ref (heap_write r ob h'')"
    using f by (simp add: heap_write_def)
  ultimately have 1: "returned_rows cid (st', heap_write r ob h'') = returned_rows cid (st', h')
     \<and> kept_rows cid (st', heap_write r ob h'') = kept_rows cid (st', h')"
    by (rule outside_writes [OF assms(1)])
  let ?g1 = "heap_write r ob h''"
  obtain res2 g2 where g2: "heap_getMessages cid (st', ?g1) = (res2, g2)"
    by (cases "heap_getMessages cid (st', ?g1)")
  note f2 = getMessages_frame [OF g2]
  have "agree (next_ref h) (next_ref h') g2 h'"
    using f f2 out by (auto simp: agree_def heap_write_def)
  moreover have "next_ref h' \<le> next_ref g2" using f f2 by (simp add: heap_write_def)
  ultimately have "returned_rows cid (st', g2) = returned_rows cid (st', h')"
    using outside_writes [OF assms(1)] by blast
  then have 3: "returned_rows cid (st', snd (heap_getMessages cid (st', ?g1)))
      = returned_rows cid (st', h')"
    using g2 by simp
  have 2: "returned_rows cid (st', heap_write r ob h') = returned_rows cid (st', h')
          \<and> kept_rows cid (st', heap_write r ob h') = kept_rows cid (st', h')"
    if "r < next_ref h"
  proof -
    have "agree (next_ref h) (next_ref h') (heap_write r ob h') h'"
      using that by (auto simp: agree_def heap_write_def)
    moreover have "next_ref h' \<le> next_ref (heap_write r ob h')" by (simp add: heap_write_def)
    ultimately show ?thesis by (rule outside_writes [OF assms(1)])
  qed
  show ?thesis using 1 2 3 fresh by blast
qed

text \<open>
  The instance, on the stored tool row of the example. \<open>getMessages\<close> returns the
  array in cell 9, whose row is cell 8 with the metadata map in cell 7. The caller
  empties the row it was returned (cell 8), and the row it had passed (cell 2); each
  time the next \<open>getMessages\<close> returns the stored row whole.
\<close>

theorem copies_one_level_witness:
  "fst (heap_getMessages ''default'' tool_stored) = 9
   \<and> handles (snd (heap_getMessages ''default'' tool_stored)) 9 = [9, 8, 7]
   \<and> returned_rows ''default''
         (fst tool_stored, heap_write 8 (Obj []) (snd (heap_getMessages ''default'' tool_stored)))
       = [([(''role'', Str ''tool''), (''content'', Str ''sunny''), (''sequence'', Number 0),
            (''createdAt'', Number 1000)],
           Some [(''toolCallId'', Str ''call_1''), (''artifact'', Ref 0)])]
   \<and> 2 < next_ref tool_heap
   \<and> returned_rows ''default''
         (fst tool_stored, heap_write 2 (Obj []) (snd (heap_getMessages ''default'' tool_stored)))
       = [([(''role'', Str ''tool''), (''content'', Str ''sunny''), (''sequence'', Number 0),
            (''createdAt'', Number 1000)],
           Some [(''toolCallId'', Str ''call_1''), (''artifact'', Ref 0)])]"
proof -
  let ?h'' = "snd (heap_getMessages ''default'' tool_stored)"
  have r: "heap_replaceConversation ''default'' 3 (\<lambda>cid. None, tool_heap)
      = (fst tool_stored, snd tool_stored)"
    by (simp add: tool_stored_def)
  have g: "heap_getMessages ''default'' (fst tool_stored, snd tool_stored) = (9, ?h'')"
    by (simp add: heap_eval eval_nat_numeral)
  have g9: "fst (heap_getMessages ''default'' tool_stored) = 9"
    using g by (metis fst_conv prod.collapse)
  have hs: "handles ?h'' 9 = [9, 8, 7]"
    by (simp add: heap_eval handles_def eval_nat_numeral)
  have k8: "8 < next_ref tool_heap \<or> 8 \<in> set (handles ?h'' 9)" using hs by simp
  have k2: "2 < next_ref tool_heap \<or> 2 \<in> set (handles ?h'' 9)" by (simp add: tool_heap_def)
  have v: "returned_rows ''default'' (fst tool_stored, snd tool_stored)
       = [([(''role'', Str ''tool''), (''content'', Str ''sunny''), (''sequence'', Number 0),
            (''createdAt'', Number 1000)],
           Some [(''toolCallId'', Str ''call_1''), (''artifact'', Ref 0)])]"
    by (simp add: heap_eval)
  have "returned_rows ''default'' (fst tool_stored, heap_write 8 (Obj []) ?h'')
      = returned_rows ''default'' (fst tool_stored, snd tool_stored)"
    using copies_one_level [OF r g k8] by simp
  moreover have "returned_rows ''default'' (fst tool_stored, heap_write 2 (Obj []) ?h'')
      = returned_rows ''default'' (fst tool_stored, snd tool_stored)"
    using copies_one_level [OF r g k2] by simp
  ultimately show ?thesis using v hs g9 by (simp add: tool_heap_def)
qed

end
